theory Spec2Isabelle
  imports Complex_Main
begin

section \<open>Time-window evaluator\<close>

text \<open>
  \<^verbatim>\<open>apps/budget/utils/helpers.py\<close>: hours are Python integers, so \<open>int\<close>.
  A chained comparison \<^verbatim>\<open>start <= hour < end\<close> is the conjunction of its two halves.
\<close>

definition is_hour_in_range :: "int \<Rightarrow> int \<Rightarrow> int \<Rightarrow> bool" where
  "is_hour_in_range start end hour =
     (if start < end then start \<le> hour \<and> hour < end
      else hour \<ge> start \<or> hour < end)"

section \<open>Data model\<close>

text \<open>
  \<^verbatim>\<open>apps/budget/models.py\<close>. Money is Python's \<open>Decimal\<close>: decimal fractions, compared
  exactly and added exactly within the 28 significant digits of the default context, far
  more than the 12 and 15 digits of the columns, so \<open>rat\<close>. The columns are declared
  \<open>DecimalField(max_digits=12 or 15, decimal_places=2)\<close>: when a value is stored, Django
  rounds it to two decimal places and refuses it if it then has more than \<open>max_digits\<close>
  digits. The model stores the value it is handed; \<open>fits_column\<close> below says of a value
  that its column holds it as it is, and the statements about stored amounts are for such
  values. Primary keys (UUIDs) are opaque identifiers, here \<open>nat\<close>.
  The fields \<open>name\<close>, \<open>start_date\<close>, \<open>end_date\<close>, \<open>created_at\<close> and \<open>updated_at\<close> are
  neither read nor written by any operation below (every \<open>save\<close> names its
  \<open>update_fields\<close>) and are left out.
\<close>

datatype status = ACTIVE | PAUSED | COMPLETED

record brand =
  brand_id :: nat
  brand_daily_budget :: rat
  brand_monthly_budget :: rat
  brand_daily_spend :: rat
  brand_monthly_spend :: rat
  brand_is_active :: bool

record campaign =
  cid :: nat
  brand_ref :: nat
  status :: status
  daily_budget :: rat
  monthly_budget :: rat
  daily_spend :: rat
  monthly_spend :: rat
  is_active :: bool
  pause_reason :: "string option"

record spend =
  spend_campaign :: nat
  amount :: rat
  spend_date :: int
  spend_hour :: "int option"

record dayparting_schedule =
  schedule_campaign :: nat
  day_of_week :: int
  start_hour :: int
  end_hour :: int
  schedule_is_active :: bool

text \<open>
  \<open>timezone.now()\<close> is passed in explicitly. Of a \<open>datetime\<close> the code reads \<open>date()\<close>,
  \<open>hour\<close> and \<open>weekday()\<close>; the date is its proleptic Gregorian ordinal (day 1 is a
  Monday), from which Python's \<open>weekday()\<close> (Monday is 0) is \<open>(ordinal + 6) mod 7\<close>.
\<close>

record datetime =
  dt_date :: int
  dt_hour :: int

definition weekday :: "datetime \<Rightarrow> int" where
  "weekday now = (dt_date now + 6) mod 7"

text \<open>
  The persistence collaborator: one table per model, rows in a fixed order. An object in
  memory is a copy of a row; \<open>save(update_fields=fs)\<close> writes the fields \<open>fs\<close> of the
  object into the row with the object's primary key. The tasks save objects they have
  just loaded, and the recorder is passed a loaded object. Saving an object that has no
  row makes Django raise and roll the transaction back; that failure is not modelled, and
  the statements below about what a call does to the database are for objects that
  have a stored row.
\<close>

record db =
  brands :: "brand list"
  campaigns :: "campaign list"
  spends :: "spend list"
  dayparting_schedules :: "dayparting_schedule list"

datatype field = F_status | F_pause_reason | F_is_active | F_daily_spend | F_monthly_spend

fun copy_field :: "campaign \<Rightarrow> field \<Rightarrow> campaign \<Rightarrow> campaign" where
  "copy_field obj F_status row = row\<lparr>status := status obj\<rparr>"
| "copy_field obj F_pause_reason row = row\<lparr>pause_reason := pause_reason obj\<rparr>"
| "copy_field obj F_is_active row = row\<lparr>is_active := is_active obj\<rparr>"
| "copy_field obj F_daily_spend row = row\<lparr>daily_spend := daily_spend obj\<rparr>"
| "copy_field obj F_monthly_spend row = row\<lparr>monthly_spend := monthly_spend obj\<rparr>"

definition save :: "campaign \<Rightarrow> field list \<Rightarrow> db \<Rightarrow> db" where
  "save obj fs d =
     d\<lparr>campaigns :=
          map (\<lambda>row. if cid row = cid obj then fold (copy_field obj) fs row else row)
            (campaigns d)\<rparr>"

datatype brand_field = BF_is_active | BF_daily_spend | BF_monthly_spend

fun brand_copy_field :: "brand \<Rightarrow> brand_field \<Rightarrow> brand \<Rightarrow> brand" where
  "brand_copy_field obj BF_is_active row = row\<lparr>brand_is_active := brand_is_active obj\<rparr>"
| "brand_copy_field obj BF_daily_spend row = row\<lparr>brand_daily_spend := brand_daily_spend obj\<rparr>"
| "brand_copy_field obj BF_monthly_spend row =
     row\<lparr>brand_monthly_spend := brand_monthly_spend obj\<rparr>"

definition brand_save :: "brand \<Rightarrow> brand_field list \<Rightarrow> db \<Rightarrow> db" where
  "brand_save obj fs d =
     d\<lparr>brands :=
          map (\<lambda>row. if brand_id row = brand_id obj then fold (brand_copy_field obj) fs row
                     else row)
            (brands d)\<rparr>"

text \<open>\<open>Campaign.objects.get(id=i)\<close>, with \<open>None\<close> for \<open>DoesNotExist\<close>.\<close>

definition get_campaign :: "db \<Rightarrow> nat \<Rightarrow> campaign option" where
  "get_campaign d i = find (\<lambda>row. cid row = i) (campaigns d)"

text \<open>The primary key is unique within the campaign table.\<close>

definition pk_unique :: "db \<Rightarrow> bool" where
  "pk_unique d \<longleftrightarrow> distinct (map cid (campaigns d))"

section \<open>Brand\<close>

text \<open>
  The methods of \<open>Brand\<close>, prefixed \<open>brand_\<close> since \<open>Campaign\<close> has methods of the same
  names. A method mutates the object and saves it: the model returns the object and the
  database.
\<close>

definition brand_check_budget_limits :: "brand \<Rightarrow> db \<Rightarrow> brand \<times> db" where
  "brand_check_budget_limits b d =
     (if brand_daily_spend b \<ge> brand_daily_budget b then
        (let b' = b\<lparr>brand_is_active := False\<rparr> in (b', brand_save b' [BF_is_active] d))
      else if brand_monthly_spend b \<ge> brand_monthly_budget b then
        (let b' = b\<lparr>brand_is_active := False\<rparr> in (b', brand_save b' [BF_is_active] d))
      else if \<not> brand_is_active b then
        (let b' = b\<lparr>brand_is_active := True\<rparr> in (b', brand_save b' [BF_is_active] d))
      else (b, d))"

definition brand_reset_daily_spend :: "brand \<Rightarrow> db \<Rightarrow> brand \<times> db" where
  "brand_reset_daily_spend b d =
     (let b' = b\<lparr>brand_daily_spend := 0\<rparr> in (b', brand_save b' [BF_daily_spend] d))"

definition brand_reset_monthly_spend :: "brand \<Rightarrow> db \<Rightarrow> brand \<times> db" where
  "brand_reset_monthly_spend b d =
     (let b' = b\<lparr>brand_monthly_spend := 0\<rparr> in (b', brand_save b' [BF_monthly_spend] d))"

section \<open>Campaign\<close>

definition can_resume :: "campaign \<Rightarrow> bool" where
  "can_resume c \<longleftrightarrow> daily_spend c < daily_budget c \<and> monthly_spend c < monthly_budget c"

definition check_budget_limits :: "campaign \<Rightarrow> db \<Rightarrow> campaign \<times> db" where
  "check_budget_limits c d =
     (if daily_spend c \<ge> daily_budget c then
        (let c' = c\<lparr>status := PAUSED, pause_reason := Some ''DAILY_BUDGET_EXCEEDED''\<rparr>
         in (c', save c' [F_status, F_pause_reason] d))
      else if monthly_spend c \<ge> monthly_budget c then
        (let c' = c\<lparr>status := PAUSED, pause_reason := Some ''MONTHLY_BUDGET_EXCEEDED''\<rparr>
         in (c', save c' [F_status, F_pause_reason] d))
      else if status c = PAUSED \<and> can_resume c then
        (let c' = c\<lparr>status := ACTIVE, pause_reason := None\<rparr>
         in (c', save c' [F_status, F_pause_reason] d))
      else (c, d))"

definition reset_daily_spend :: "campaign \<Rightarrow> db \<Rightarrow> campaign \<times> db" where
  "reset_daily_spend c d =
     (let c' = c\<lparr>daily_spend := 0\<rparr> in (c', save c' [F_daily_spend] d))"

definition reset_monthly_spend :: "campaign \<Rightarrow> db \<Rightarrow> campaign \<times> db" where
  "reset_monthly_spend c d =
     (let c' = c\<lparr>monthly_spend := 0\<rparr> in (c', save c' [F_monthly_spend] d))"

text \<open>
  \<open>campaign.dayparting_schedules\<close>: the schedules whose foreign key is the campaign.
  \<open>is_within_dayparting\<close> loops over the active ones and returns at the first match.
\<close>

definition campaign_schedules :: "db \<Rightarrow> campaign \<Rightarrow> dayparting_schedule list" where
  "campaign_schedules d c = filter (\<lambda>s. schedule_campaign s = cid c) (dayparting_schedules d)"

fun within_loop :: "dayparting_schedule list \<Rightarrow> int \<Rightarrow> int \<Rightarrow> bool" where
  "within_loop [] current_day current_hour = False"
| "within_loop (s # ss) current_day current_hour =
     (if day_of_week s \<noteq> current_day then within_loop ss current_day current_hour
      else if is_hour_in_range (start_hour s) (end_hour s) current_hour then True
      else within_loop ss current_day current_hour)"

definition is_within_dayparting :: "db \<Rightarrow> campaign \<Rightarrow> datetime \<Rightarrow> bool" where
  "is_within_dayparting d c now =
     within_loop (filter schedule_is_active (campaign_schedules d c)) (weekday now) (dt_hour now)"

section \<open>Spend recorder\<close>

text \<open>
  \<^verbatim>\<open>apps/budget/service.py\<close>. The function takes the campaign object, appends a
  \<open>Spend\<close> row, adds the amount to the object's two accumulators and saves them, then
  pauses the object (and saves) when an accumulator is strictly above its budget. It has
  no check on \<open>amount\<close> and no \<open>raise\<close>.
\<close>

definition process_ad_spend :: "campaign \<Rightarrow> rat \<Rightarrow> datetime \<Rightarrow> db \<Rightarrow> campaign \<times> db" where
  "process_ad_spend c amt now d =
     (let d1 = d\<lparr>spends := spends d @
                  [\<lparr>spend_campaign = cid c, amount = amt, spend_date = dt_date now,
                    spend_hour = Some (dt_hour now)\<rparr>]\<rparr>;
          c1 = c\<lparr>daily_spend := daily_spend c + amt, monthly_spend := monthly_spend c + amt\<rparr>;
          d2 = save c1 [F_daily_spend, F_monthly_spend] d1
      in if daily_spend c1 > daily_budget c1 then
           (let c2 = c1\<lparr>status := PAUSED, pause_reason := Some ''DAILY_BUDGET_EXCEEDED'',
                        is_active := False\<rparr>
            in (c2, save c2 [F_status, F_pause_reason, F_is_active] d2))
         else if monthly_spend c1 > monthly_budget c1 then
           (let c2 = c1\<lparr>status := PAUSED, pause_reason := Some ''MONTHLY_BUDGET_EXCEEDED'',
                        is_active := False\<rparr>
            in (c2, save c2 [F_status, F_pause_reason, F_is_active] d2))
         else (c1, d2))"

section \<open>Periodic tasks\<close>

text \<open>
  \<^verbatim>\<open>apps/budget/tasks.py\<close>. A task evaluates its queryset once and then runs the loop
  body on each object in turn; each body works on the database the previous one left.
\<close>

definition pause_campaigns_exceeding_budget :: "db \<Rightarrow> db" where
  "pause_campaigns_exceeding_budget d =
     fold (\<lambda>c d'. snd (check_budget_limits c d'))
       (filter (\<lambda>c. is_active c \<and> status c = ACTIVE) (campaigns d)) d"

definition reset_daily_budgets :: "db \<Rightarrow> db" where
  "reset_daily_budgets d =
     (let d1 = fold (\<lambda>b d'. snd (brand_reset_daily_spend b d')) (brands d) d
      in fold (\<lambda>c d'. snd (reset_daily_spend c d')) (campaigns d1) d1)"

definition reset_monthly_budgets :: "db \<Rightarrow> db" where
  "reset_monthly_budgets d =
     (let d1 = fold (\<lambda>b d'. snd (brand_reset_monthly_spend b d')) (brands d) d
      in fold (\<lambda>c d'. snd (reset_monthly_spend c d')) (campaigns d1) d1)"

definition reactivate_body :: "campaign \<Rightarrow> db \<Rightarrow> db" where
  "reactivate_body c d =
     (if can_resume c then
        save (c\<lparr>status := ACTIVE, pause_reason := None\<rparr>) [F_status, F_pause_reason] d
      else d)"

definition reactivate_eligible_campaigns :: "db \<Rightarrow> db" where
  "reactivate_eligible_campaigns d =
     fold reactivate_body (filter (\<lambda>c. status c = PAUSED) (campaigns d)) d"

definition enforce_dayparting_body :: "datetime \<Rightarrow> campaign \<Rightarrow> db \<Rightarrow> db" where
  "enforce_dayparting_body now c d =
     (if campaign_schedules d c = [] then d
      else if \<not> is_within_dayparting d c now then
        (if status c \<noteq> PAUSED \<or> pause_reason c \<noteq> Some ''OUTSIDE_DAYPARTING_HOURS'' then
           save (c\<lparr>status := PAUSED, pause_reason := Some ''OUTSIDE_DAYPARTING_HOURS''\<rparr>)
             [F_status, F_pause_reason] d
         else d)
      else
        (if status c = PAUSED \<and> pause_reason c = Some ''OUTSIDE_DAYPARTING_HOURS'' then
           (if can_resume c then
              save (c\<lparr>status := ACTIVE, pause_reason := None\<rparr>) [F_status, F_pause_reason] d
            else d)
         else d))"

definition enforce_dayparting :: "datetime \<Rightarrow> db \<Rightarrow> db" where
  "enforce_dayparting now d = fold (enforce_dayparting_body now) (filter is_active (campaigns d)) d"

text \<open>
  The simulation driver draws each amount from \<open>random.uniform\<close>; the draws are a
  parameter, the \<open>k\<close>-th call of the generator returning \<open>draws k\<close>, taken as the amount
  that reaches the columns.
\<close>

fun simulate_loop :: "campaign list \<Rightarrow> (nat \<Rightarrow> rat) \<Rightarrow> nat \<Rightarrow> datetime \<Rightarrow> db \<Rightarrow> db" where
  "simulate_loop [] draws k now d = d"
| "simulate_loop (c # cs) draws k now d =
     (if campaign_schedules d c = [] then simulate_loop cs draws k now d
      else if \<not> is_within_dayparting d c now then simulate_loop cs draws k now d
      else simulate_loop cs draws (Suc k) now (snd (process_ad_spend c (draws k) now d)))"

definition simulate_ad_spend :: "(nat \<Rightarrow> rat) \<Rightarrow> datetime \<Rightarrow> db \<Rightarrow> db" where
  "simulate_ad_spend draws now d =
     simulate_loop (filter (\<lambda>c. is_active c \<and> status c = ACTIVE) (campaigns d)) draws 0 now d"

section \<open>Runs of the system\<close>

text \<open>
  A run is a sequence of calls of the operations above, each on the database the previous
  call left. Recording a spend for a campaign id loads the campaign and passes the loaded
  object to \<open>process_ad_spend\<close>, as the simulation driver does with the objects of its
  queryset; for an id with no row nothing is recorded.
\<close>

datatype event =
    Record_spend nat rat datetime
  | Sweep_budgets
  | Reset_daily
  | Reset_monthly
  | Sweep_reactivations
  | Sweep_dayparting datetime
  | Simulate "nat \<Rightarrow> rat" datetime

fun apply_event :: "event \<Rightarrow> db \<Rightarrow> db" where
  "apply_event (Record_spend i amt now) d =
     (case get_campaign d i of None \<Rightarrow> d | Some c \<Rightarrow> snd (process_ad_spend c amt now d))"
| "apply_event Sweep_budgets d = pause_campaigns_exceeding_budget d"
| "apply_event Reset_daily d = reset_daily_budgets d"
| "apply_event Reset_monthly d = reset_monthly_budgets d"
| "apply_event Sweep_reactivations d = reactivate_eligible_campaigns d"
| "apply_event (Sweep_dayparting now) d = enforce_dayparting now d"
| "apply_event (Simulate draws now) d = simulate_ad_spend draws now d"

definition run_events :: "event list \<Rightarrow> db \<Rightarrow> db" where
  "run_events evs d = fold apply_event evs d"

text \<open>The sum of the amounts of the \<open>Spend\<close> rows of campaign \<open>i\<close>.\<close>

definition spent :: "db \<Rightarrow> nat \<Rightarrow> rat" where
  "spent d i = sum_list (map amount (filter (\<lambda>s. spend_campaign s = i) (spends d)))"




section \<open>The effect of a task on one row\<close>

text \<open>
  Auxiliary functions for the proofs: what the loop body of each task does to the row of
  the object it is run on. That the tasks above, which save object by object, amount to
  mapping these functions over the campaign table is proved below, for tables with unique
  primary keys.
\<close>

definition budget_sweep_row :: "campaign \<Rightarrow> campaign" where
  "budget_sweep_row row =
     (if is_active row \<and> status row = ACTIVE then
        (if daily_spend row \<ge> daily_budget row then
           row\<lparr>status := PAUSED, pause_reason := Some ''DAILY_BUDGET_EXCEEDED''\<rparr>
         else if monthly_spend row \<ge> monthly_budget row then
           row\<lparr>status := PAUSED, pause_reason := Some ''MONTHLY_BUDGET_EXCEEDED''\<rparr>
         else row)
      else row)"

definition reactivation_row :: "campaign \<Rightarrow> campaign" where
  "reactivation_row row =
     (if status row = PAUSED then
        (if can_resume row then row\<lparr>status := ACTIVE, pause_reason := None\<rparr> else row)
      else row)"

definition dayparting_row :: "db \<Rightarrow> datetime \<Rightarrow> campaign \<Rightarrow> campaign" where
  "dayparting_row d now row =
     (if is_active row then
        (if campaign_schedules d row = [] then row
         else if \<not> is_within_dayparting d row now then
           (if status row \<noteq> PAUSED \<or> pause_reason row \<noteq> Some ''OUTSIDE_DAYPARTING_HOURS'' then
              row\<lparr>status := PAUSED, pause_reason := Some ''OUTSIDE_DAYPARTING_HOURS''\<rparr>
            else row)
         else
           (if status row = PAUSED \<and> pause_reason row = Some ''OUTSIDE_DAYPARTING_HOURS''
               \<and> can_resume row then
              row\<lparr>status := ACTIVE, pause_reason := None\<rparr>
            else row))
      else row)"

text \<open>What every operation preserves of a row.\<close>

definition row_frame :: "campaign \<Rightarrow> campaign \<Rightarrow> bool" where
  "row_frame r r' \<longleftrightarrow>
     cid r' = cid r \<and> daily_budget r' = daily_budget r \<and> monthly_budget r' = monthly_budget r
     \<and> (is_active r' \<longrightarrow> is_active r)
     \<and> (status r' = COMPLETED \<longrightarrow> status r = COMPLETED)"

section \<open>Example data\<close>

text \<open>
  The fixtures of the test suite (\<^verbatim>\<open>conftest.py\<close>): a brand with budgets 100.00 and
  1000.00, a campaign with budgets 50.00 and 500.00, nothing spent, and a schedule for
  Mondays from 9 to 17. The clock reads Monday 15 January 2024 (ordinal 738900), 20:00.
\<close>

definition ex_now :: datetime where
  "ex_now = \<lparr>dt_date = 738900, dt_hour = 20\<rparr>"

definition ex_brand :: brand where
  "ex_brand = \<lparr>brand_id = 1, brand_daily_budget = 100, brand_monthly_budget = 1000,
     brand_daily_spend = 0, brand_monthly_spend = 0, brand_is_active = True\<rparr>"

definition ex_campaign :: campaign where
  "ex_campaign = \<lparr>cid = 1, brand_ref = 1, status = ACTIVE, daily_budget = 50,
     monthly_budget = 500, daily_spend = 0, monthly_spend = 0, is_active = True,
     pause_reason = None\<rparr>"

definition ex_schedule :: dayparting_schedule where
  "ex_schedule = \<lparr>schedule_campaign = 1, day_of_week = 0, start_hour = 9, end_hour = 17,
     schedule_is_active = True\<rparr>"

definition ex_db :: db where
  "ex_db = \<lparr>brands = [ex_brand], campaigns = [ex_campaign], spends = [],
     dayparting_schedules = [ex_schedule]\<rparr>"

section \<open>Auxiliary lemmas\<close>

subsection \<open>Saving and looking up rows\<close>

lemma cid_copy_field [simp]: "cid (copy_field obj f row) = cid row"
  by (cases f) simp_all

lemma cid_fold_copy_field [simp]: "cid (fold (copy_field obj) fs row) = cid row"
  by (induction fs arbitrary: row) simp_all

lemma save_tables [simp]:
  "campaigns (save obj fs d) =
     map (\<lambda>row. if cid row = cid obj then fold (copy_field obj) fs row else row) (campaigns d)"
  "brands (save obj fs d) = brands d"
  "spends (save obj fs d) = spends d"
  "dayparting_schedules (save obj fs d) = dayparting_schedules d"
  by (simp_all add: save_def)

lemma find_map_cid:
  assumes "\<And>row. cid (G row) = cid row"
  shows "find (\<lambda>row. cid row = i) (map G rs) = map_option G (find (\<lambda>row. cid row = i) rs)"
  using assms by (induction rs) simp_all

lemma get_campaign_map:
  assumes "\<And>row. cid (G row) = cid row"
  shows "get_campaign (d\<lparr>campaigns := map G (campaigns d)\<rparr>) i = map_option G (get_campaign d i)"
  using find_map_cid [of G i "campaigns d"] assms by (simp add: get_campaign_def)

subsection \<open>A loop of saves over a queryset\<close>

text \<open>
  A loop body that rewrites only the row of its object, run over objects with distinct
  primary keys, rewrites each of those rows once; run over a filtered table whose keys are
  unique, it maps the rewrite over the rows that pass the filter.
\<close>

lemma fold_row_local:
  assumes body: "\<And>c d. P d \<Longrightarrow> body c d =
      d\<lparr>campaigns := map (\<lambda>row. if cid row = cid c then U c row else row) (campaigns d)\<rparr>"
    and P_upd: "\<And>d cs. P d \<Longrightarrow> P (d\<lparr>campaigns := cs\<rparr>)"
    and U_cid: "\<And>c row. cid (U c row) = cid row"
  shows "P d \<Longrightarrow> distinct (map cid qs) \<Longrightarrow>
    fold body qs d =
      d\<lparr>campaigns := map (\<lambda>row. case find (\<lambda>c. cid c = cid row) qs of
                                  Some c \<Rightarrow> U c row | None \<Rightarrow> row) (campaigns d)\<rparr>"
proof (induction qs arbitrary: d)
  case Nil
  then show ?case by simp
next
  case (Cons c qs)
  let ?d1 = "body c d"
  have d1: "?d1 = d\<lparr>campaigns := map (\<lambda>row. if cid row = cid c then U c row else row) (campaigns d)\<rparr>"
    using body Cons.prems(1) by simp
  have P1: "P ?d1" using d1 P_upd Cons.prems(1) by simp
  have dist: "distinct (map cid qs)" and fresh: "\<forall>x\<in>set qs. cid x \<noteq> cid c"
    using Cons.prems(2) by (auto simp: image_iff)
  have nofind: "find (\<lambda>c'. cid c' = cid c) qs = None"
    using fresh by (simp add: find_None_iff)
  have "fold body (c # qs) d = fold body qs ?d1" by simp
  also have "\<dots> = ?d1\<lparr>campaigns := map (\<lambda>row. case find (\<lambda>c. cid c = cid row) qs of
                                  Some c \<Rightarrow> U c row | None \<Rightarrow> row) (campaigns ?d1)\<rparr>"
    using Cons.IH [OF P1 dist] .
  also have "\<dots> = d\<lparr>campaigns := map (\<lambda>row. case find (\<lambda>c'. cid c' = cid row) (c # qs) of
                                  Some c \<Rightarrow> U c row | None \<Rightarrow> row) (campaigns d)\<rparr>"
    using nofind by (simp add: d1 U_cid eq_commute [of "cid c"] cong: if_cong)
  finally show ?case .
qed

lemma find_filter_self:
  "distinct (map cid rs) \<Longrightarrow> row \<in> set rs \<Longrightarrow>
   find (\<lambda>c. cid c = cid row) (filter Q rs) = (if Q row then Some row else None)"
proof (induction rs)
  case Nil
  then show ?case by simp
next
  case (Cons r rs)
  show ?case
  proof (cases "row = r")
    case True
    have "\<forall>x\<in>set rs. cid x \<noteq> cid r" using Cons.prems(1) by (auto simp: image_iff)
    then have "find (\<lambda>c. cid c = cid r) (filter Q rs) = None"
      by (simp add: find_None_iff)
    then show ?thesis using True by simp
  next
    case False
    then have mem: "row \<in> set rs" using Cons.prems(2) by simp
    have "cid r \<noteq> cid row" using Cons.prems(1) mem by auto
    then show ?thesis using Cons.IH mem Cons.prems(1) by simp
  qed
qed

lemma fold_queryset:
  assumes body: "\<And>c d. P d \<Longrightarrow> body c d =
      d\<lparr>campaigns := map (\<lambda>row. if cid row = cid c then U c row else row) (campaigns d)\<rparr>"
    and P_upd: "\<And>d cs. P d \<Longrightarrow> P (d\<lparr>campaigns := cs\<rparr>)"
    and U_cid: "\<And>c row. cid (U c row) = cid row"
    and P: "P d" and dist: "distinct (map cid (campaigns d))"
  shows "fold body (filter Q (campaigns d)) d =
      d\<lparr>campaigns := map (\<lambda>row. if Q row then U row row else row) (campaigns d)\<rparr>"
proof -
  have dq: "distinct (map cid (filter Q (campaigns d)))"
    using dist by (rule distinct_map_filter)
  have "map (\<lambda>row. case find (\<lambda>c. cid c = cid row) (filter Q (campaigns d)) of
                                  Some c \<Rightarrow> U c row | None \<Rightarrow> row) (campaigns d)
      = map (\<lambda>row. if Q row then U row row else row) (campaigns d)"
    by (rule map_cong) (simp_all add: find_filter_self [OF dist])
  then show ?thesis
    using fold_row_local [of P body U d "filter Q (campaigns d)", OF body P_upd U_cid P dq]
    by simp
qed

subsection \<open>The loop bodies, as row rewrites\<close>

lemma db_campaigns_id [simp]: "d\<lparr>campaigns := campaigns d\<rparr> = (d::db)"
  by simp

lemma check_budget_limits_db:
  "snd (check_budget_limits c d) =
     d\<lparr>campaigns := map (\<lambda>row. if cid row = cid c then
         (if daily_spend c \<ge> daily_budget c then
            row\<lparr>status := PAUSED, pause_reason := Some ''DAILY_BUDGET_EXCEEDED''\<rparr>
          else if monthly_spend c \<ge> monthly_budget c then
            row\<lparr>status := PAUSED, pause_reason := Some ''MONTHLY_BUDGET_EXCEEDED''\<rparr>
          else if status c = PAUSED \<and> can_resume c then
            row\<lparr>status := ACTIVE, pause_reason := None\<rparr>
          else row) else row) (campaigns d)\<rparr>"
  by (auto simp add: check_budget_limits_def save_def Let_def cong: if_cong)

lemma reactivate_body_db:
  "reactivate_body c d =
     d\<lparr>campaigns := map (\<lambda>row. if cid row = cid c then
         (if can_resume c then row\<lparr>status := ACTIVE, pause_reason := None\<rparr> else row)
         else row) (campaigns d)\<rparr>"
  by (auto simp add: reactivate_body_def save_def cong: if_cong)

lemma enforce_dayparting_body_db:
  assumes "dayparting_schedules d = dayparting_schedules d0"
  shows "enforce_dayparting_body now c d =
     d\<lparr>campaigns := map (\<lambda>row. if cid row = cid c then
         (if campaign_schedules d0 c = [] then row
          else if \<not> is_within_dayparting d0 c now then
            (if status c \<noteq> PAUSED \<or> pause_reason c \<noteq> Some ''OUTSIDE_DAYPARTING_HOURS'' then
               row\<lparr>status := PAUSED, pause_reason := Some ''OUTSIDE_DAYPARTING_HOURS''\<rparr>
             else row)
          else
            (if status c = PAUSED \<and> pause_reason c = Some ''OUTSIDE_DAYPARTING_HOURS''
                \<and> can_resume c then
               row\<lparr>status := ACTIVE, pause_reason := None\<rparr>
             else row))
         else row) (campaigns d)\<rparr>"
proof -
  have s: "campaign_schedules d c = campaign_schedules d0 c"
    using assms by (simp add: campaign_schedules_def)
  have w: "is_within_dayparting d c now = is_within_dayparting d0 c now"
    using s by (simp add: is_within_dayparting_def)
  show ?thesis
    unfolding enforce_dayparting_body_def s w
    by (auto simp add: save_def cong: if_cong)
qed

lemma reset_daily_spend_db:
  "snd (reset_daily_spend c d) =
     d\<lparr>campaigns := map (\<lambda>row. if cid row = cid c then row\<lparr>daily_spend := 0\<rparr> else row)
        (campaigns d)\<rparr>"
  by (simp add: reset_daily_spend_def save_def Let_def)

lemma reset_monthly_spend_db:
  "snd (reset_monthly_spend c d) =
     d\<lparr>campaigns := map (\<lambda>row. if cid row = cid c then row\<lparr>monthly_spend := 0\<rparr> else row)
        (campaigns d)\<rparr>"
  by (simp add: reset_monthly_spend_def save_def Let_def)

subsection \<open>The tasks, as maps over the campaign table\<close>

lemma pause_campaigns_exceeding_budget_rows:
  assumes "distinct (map cid (campaigns d))"
  shows "pause_campaigns_exceeding_budget d =
     d\<lparr>campaigns := map budget_sweep_row (campaigns d)\<rparr>"
proof -
  let ?U = "\<lambda>(c::campaign) (row::campaign).
         if daily_spend c \<ge> daily_budget c then
            row\<lparr>status := PAUSED, pause_reason := Some ''DAILY_BUDGET_EXCEEDED''\<rparr>
          else if monthly_spend c \<ge> monthly_budget c then
            row\<lparr>status := PAUSED, pause_reason := Some ''MONTHLY_BUDGET_EXCEEDED''\<rparr>
          else if status c = PAUSED \<and> can_resume c then
            row\<lparr>status := ACTIVE, pause_reason := None\<rparr>
          else row"
  let ?Q = "\<lambda>c. is_active c \<and> status c = ACTIVE"
  have "fold (\<lambda>c d'. snd (check_budget_limits c d')) (filter ?Q (campaigns d)) d =
      d\<lparr>campaigns := map (\<lambda>row. if ?Q row then ?U row row else row) (campaigns d)\<rparr>"
  proof (rule fold_queryset [where P = "\<lambda>_. True" and U = ?U])
    show "snd (check_budget_limits c d') =
        d'\<lparr>campaigns := map (\<lambda>row. if cid row = cid c then ?U c row else row) (campaigns d')\<rparr>"
      for c d' by (rule check_budget_limits_db)
    show "cid (?U c row) = cid row" for c row by simp
  qed (simp_all add: assms)
  also have "map (\<lambda>row. if ?Q row then ?U row row else row) (campaigns d) =
      map budget_sweep_row (campaigns d)"
    by (rule map_cong) (auto simp add: budget_sweep_row_def)
  finally show ?thesis by (simp add: pause_campaigns_exceeding_budget_def)
qed

lemma reactivate_eligible_campaigns_rows:
  assumes "distinct (map cid (campaigns d))"
  shows "reactivate_eligible_campaigns d =
     d\<lparr>campaigns := map reactivation_row (campaigns d)\<rparr>"
proof -
  let ?U = "\<lambda>(c::campaign) (row::campaign).
      if can_resume c then row\<lparr>status := ACTIVE, pause_reason := None\<rparr> else row"
  let ?Q = "\<lambda>c. status c = PAUSED"
  have "fold reactivate_body (filter ?Q (campaigns d)) d =
      d\<lparr>campaigns := map (\<lambda>row. if ?Q row then ?U row row else row) (campaigns d)\<rparr>"
  proof (rule fold_queryset [where P = "\<lambda>_. True" and U = ?U])
    show "reactivate_body c d' =
        d'\<lparr>campaigns := map (\<lambda>row. if cid row = cid c then ?U c row else row) (campaigns d')\<rparr>"
      for c d' by (rule reactivate_body_db)
    show "cid (?U c row) = cid row" for c row by simp
  qed (simp_all add: assms)
  also have "map (\<lambda>row. if ?Q row then ?U row row else row) (campaigns d) =
      map reactivation_row (campaigns d)"
    by (rule map_cong) (auto simp add: reactivation_row_def)
  finally show ?thesis by (simp add: reactivate_eligible_campaigns_def)
qed

lemma enforce_dayparting_rows:
  assumes "distinct (map cid (campaigns d))"
  shows "enforce_dayparting now d =
     d\<lparr>campaigns := map (dayparting_row d now) (campaigns d)\<rparr>"
proof -
  let ?U = "\<lambda>(c::campaign) (row::campaign).
         if campaign_schedules d c = [] then row
          else if \<not> is_within_dayparting d c now then
            (if status c \<noteq> PAUSED \<or> pause_reason c \<noteq> Some ''OUTSIDE_DAYPARTING_HOURS'' then
               row\<lparr>status := PAUSED, pause_reason := Some ''OUTSIDE_DAYPARTING_HOURS''\<rparr>
             else row)
          else
            (if status c = PAUSED \<and> pause_reason c = Some ''OUTSIDE_DAYPARTING_HOURS''
                \<and> can_resume c then
               row\<lparr>status := ACTIVE, pause_reason := None\<rparr>
             else row)"
  have "fold (enforce_dayparting_body now) (filter is_active (campaigns d)) d =
      d\<lparr>campaigns := map (\<lambda>row. if is_active row then ?U row row else row) (campaigns d)\<rparr>"
  proof (rule fold_queryset
      [where P = "\<lambda>d'. dayparting_schedules d' = dayparting_schedules d" and U = ?U])
    show "enforce_dayparting_body now c d' =
        d'\<lparr>campaigns := map (\<lambda>row. if cid row = cid c then ?U c row else row) (campaigns d')\<rparr>"
      if "dayparting_schedules d' = dayparting_schedules d" for c d'
      using that by (rule enforce_dayparting_body_db)
    show "cid (?U c row) = cid row" for c row by simp
  qed (simp_all add: assms)
  also have "map (\<lambda>row. if is_active row then ?U row row else row) (campaigns d) =
      map (dayparting_row d now) (campaigns d)"
    by (rule map_cong) (auto simp add: dayparting_row_def)
  finally show ?thesis by (simp add: enforce_dayparting_def)
qed

lemma fold_brand_reset_daily:
  "\<exists>bs'. fold (\<lambda>b d'. snd (brand_reset_daily_spend b d')) bs d = d\<lparr>brands := bs'\<rparr>"
proof (induction bs arbitrary: d)
  case Nil
  have "d = d\<lparr>brands := brands d\<rparr>" by simp
  then show ?case by (metis fold_simps(1))
next
  case (Cons b bs)
  obtain bs' where "fold (\<lambda>b d'. snd (brand_reset_daily_spend b d')) bs
      (snd (brand_reset_daily_spend b d)) = (snd (brand_reset_daily_spend b d))\<lparr>brands := bs'\<rparr>"
    using Cons.IH by blast
  then show ?case by (auto simp add: brand_reset_daily_spend_def brand_save_def Let_def)
qed

lemma fold_brand_reset_monthly:
  "\<exists>bs'. fold (\<lambda>b d'. snd (brand_reset_monthly_spend b d')) bs d = d\<lparr>brands := bs'\<rparr>"
proof (induction bs arbitrary: d)
  case Nil
  have "d = d\<lparr>brands := brands d\<rparr>" by simp
  then show ?case by (metis fold_simps(1))
next
  case (Cons b bs)
  obtain bs' where "fold (\<lambda>b d'. snd (brand_reset_monthly_spend b d')) bs
      (snd (brand_reset_monthly_spend b d)) = (snd (brand_reset_monthly_spend b d))\<lparr>brands := bs'\<rparr>"
    using Cons.IH by blast
  then show ?case by (auto simp add: brand_reset_monthly_spend_def brand_save_def Let_def)
qed

lemma reset_daily_budgets_campaigns:
  assumes "distinct (map cid (campaigns d))"
  shows "campaigns (reset_daily_budgets d) = map (\<lambda>row. row\<lparr>daily_spend := 0\<rparr>) (campaigns d)"
    and "spends (reset_daily_budgets d) = spends d"
    and "dayparting_schedules (reset_daily_budgets d) = dayparting_schedules d"
proof -
  obtain bs' where d1: "fold (\<lambda>b d'. snd (brand_reset_daily_spend b d')) (brands d) d = d\<lparr>brands := bs'\<rparr>"
    using fold_brand_reset_daily by blast
  let ?d1 = "d\<lparr>brands := bs'\<rparr>"
  let ?U = "\<lambda>(c::campaign) (row::campaign). row\<lparr>daily_spend := 0\<rparr>"
  have "fold (\<lambda>c d'. snd (reset_daily_spend c d')) (filter (\<lambda>_. True) (campaigns ?d1)) ?d1 =
      ?d1\<lparr>campaigns := map (\<lambda>row. if True then ?U row row else row) (campaigns ?d1)\<rparr>"
  proof (rule fold_queryset [where P = "\<lambda>_. True" and U = ?U])
    show "snd (reset_daily_spend c d') =
        d'\<lparr>campaigns := map (\<lambda>row. if cid row = cid c then ?U c row else row) (campaigns d')\<rparr>"
      for c d' by (rule reset_daily_spend_db)
    show "cid (?U c row) = cid row" for c row by simp
  qed (simp_all add: assms)
  then have eq: "reset_daily_budgets d = ?d1\<lparr>campaigns := map (\<lambda>row. row\<lparr>daily_spend := 0\<rparr>) (campaigns d)\<rparr>"
    by (simp add: reset_daily_budgets_def d1 Let_def)
  show "campaigns (reset_daily_budgets d) = map (\<lambda>row. row\<lparr>daily_spend := 0\<rparr>) (campaigns d)"
    and "spends (reset_daily_budgets d) = spends d"
    and "dayparting_schedules (reset_daily_budgets d) = dayparting_schedules d"
    by (simp_all add: eq)
qed

subsection \<open>The spend recorder: the object it returns and the rows it writes\<close>

lemma process_ad_spend_obj:
  "fst (process_ad_spend c a now d) =
     (if daily_spend c + a > daily_budget c then
        c\<lparr>daily_spend := daily_spend c + a, monthly_spend := monthly_spend c + a,
          status := PAUSED, pause_reason := Some ''DAILY_BUDGET_EXCEEDED'', is_active := False\<rparr>
      else if monthly_spend c + a > monthly_budget c then
        c\<lparr>daily_spend := daily_spend c + a, monthly_spend := monthly_spend c + a,
          status := PAUSED, pause_reason := Some ''MONTHLY_BUDGET_EXCEEDED'', is_active := False\<rparr>
      else c\<lparr>daily_spend := daily_spend c + a, monthly_spend := monthly_spend c + a\<rparr>)"
  by (simp add: process_ad_spend_def Let_def)

lemma process_ad_spend_db:
  "snd (process_ad_spend c a now d) =
     d\<lparr>campaigns := map (\<lambda>row. if cid row = cid c then
         (if daily_spend c + a > daily_budget c then
            row\<lparr>daily_spend := daily_spend c + a, monthly_spend := monthly_spend c + a,
              status := PAUSED, pause_reason := Some ''DAILY_BUDGET_EXCEEDED'', is_active := False\<rparr>
          else if monthly_spend c + a > monthly_budget c then
            row\<lparr>daily_spend := daily_spend c + a, monthly_spend := monthly_spend c + a,
              status := PAUSED, pause_reason := Some ''MONTHLY_BUDGET_EXCEEDED'', is_active := False\<rparr>
          else row\<lparr>daily_spend := daily_spend c + a, monthly_spend := monthly_spend c + a\<rparr>)
         else row) (campaigns d),
       spends := spends d @ [\<lparr>spend_campaign = cid c, amount = a, spend_date = dt_date now,
                    spend_hour = Some (dt_hour now)\<rparr>]\<rparr>"
  by (auto simp add: process_ad_spend_def save_def Let_def cong: if_cong)

lemma get_campaign_cid: "get_campaign d i = Some r \<Longrightarrow> cid r = i"
  by (auto simp: get_campaign_def find_Some_iff)

lemma get_campaign_member:
  "distinct (map cid (campaigns d)) \<Longrightarrow> r \<in> set (campaigns d) \<Longrightarrow> get_campaign d (cid r) = Some r"
  using find_filter_self [of "campaigns d" r "\<lambda>_. True"] by (simp add: get_campaign_def)

lemma process_ad_spend_row:
  assumes "get_campaign d (cid c) = Some c"
  shows "get_campaign (snd (process_ad_spend c a now d)) (cid c) = Some (fst (process_ad_spend c a now d))"
proof -
  let ?V = "\<lambda>row. if cid row = cid c then
         (if daily_spend c + a > daily_budget c then
            row\<lparr>daily_spend := daily_spend c + a, monthly_spend := monthly_spend c + a,
              status := PAUSED, pause_reason := Some ''DAILY_BUDGET_EXCEEDED'', is_active := False\<rparr>
          else if monthly_spend c + a > monthly_budget c then
            row\<lparr>daily_spend := daily_spend c + a, monthly_spend := monthly_spend c + a,
              status := PAUSED, pause_reason := Some ''MONTHLY_BUDGET_EXCEEDED'', is_active := False\<rparr>
          else row\<lparr>daily_spend := daily_spend c + a, monthly_spend := monthly_spend c + a\<rparr>)
         else row"
  have cidV: "cid (?V row) = cid row" for row by simp
  have "campaigns (snd (process_ad_spend c a now d)) = map ?V (campaigns d)"
    by (simp add: process_ad_spend_db)
  then have "get_campaign (snd (process_ad_spend c a now d)) (cid c) = map_option ?V (get_campaign d (cid c))"
    using find_map_cid [of ?V "cid c" "campaigns d", OF cidV] by (simp add: get_campaign_def)
  then show ?thesis using assms by (simp add: process_ad_spend_obj)
qed

lemma process_ad_spend_other:
  assumes "i \<noteq> cid c"
  shows "get_campaign (snd (process_ad_spend c a now d)) i = get_campaign d i"
proof -
  have "find (\<lambda>row. cid row = i) (map (\<lambda>row. if cid row = cid c then V row else row) rs)
      = find (\<lambda>row. cid row = i) rs" if "\<And>row. cid (V row) = cid row" for rs V
    using that assms by (induction rs) auto
  from this [of _ "campaigns d"] show ?thesis
    by (simp add: process_ad_spend_db get_campaign_def)
qed


lemma reset_monthly_budgets_campaigns:
  assumes "distinct (map cid (campaigns d))"
  shows "campaigns (reset_monthly_budgets d) = map (\<lambda>row. row\<lparr>monthly_spend := 0\<rparr>) (campaigns d)"
    and "spends (reset_monthly_budgets d) = spends d"
    and "dayparting_schedules (reset_monthly_budgets d) = dayparting_schedules d"
proof -
  obtain bs' where d1: "fold (\<lambda>b d'. snd (brand_reset_monthly_spend b d')) (brands d) d = d\<lparr>brands := bs'\<rparr>"
    using fold_brand_reset_monthly by blast
  let ?d1 = "d\<lparr>brands := bs'\<rparr>"
  let ?U = "\<lambda>(c::campaign) (row::campaign). row\<lparr>monthly_spend := 0\<rparr>"
  have "fold (\<lambda>c d'. snd (reset_monthly_spend c d')) (filter (\<lambda>_. True) (campaigns ?d1)) ?d1 =
      ?d1\<lparr>campaigns := map (\<lambda>row. if True then ?U row row else row) (campaigns ?d1)\<rparr>"
  proof (rule fold_queryset [where P = "\<lambda>_. True" and U = ?U])
    show "snd (reset_monthly_spend c d') =
        d'\<lparr>campaigns := map (\<lambda>row. if cid row = cid c then ?U c row else row) (campaigns d')\<rparr>"
      for c d' by (rule reset_monthly_spend_db)
    show "cid (?U c row) = cid row" for c row by simp
  qed (simp_all add: assms)
  then have eq: "reset_monthly_budgets d = ?d1\<lparr>campaigns := map (\<lambda>row. row\<lparr>monthly_spend := 0\<rparr>) (campaigns d)\<rparr>"
    by (simp add: reset_monthly_budgets_def d1 Let_def)
  show "campaigns (reset_monthly_budgets d) = map (\<lambda>row. row\<lparr>monthly_spend := 0\<rparr>) (campaigns d)"
    and "spends (reset_monthly_budgets d) = spends d"
    and "dayparting_schedules (reset_monthly_budgets d) = dayparting_schedules d"
    by (simp_all add: eq)
qed

subsection \<open>One step of a run, seen from one campaign\<close>

text \<open>
  For the row of a campaign \<open>i\<close>, each operation keeps \<open>row_frame\<close>, appends to the
  \<open>Spend\<close> table, and, the resets apart, keeps the difference between each accumulator
  and \<open>spent\<close>.
\<close>

lemma row_frame_refl [simp]: "row_frame r r"
  by (simp add: row_frame_def)

lemma row_frame_trans: "row_frame r r1 \<Longrightarrow> row_frame r1 r2 \<Longrightarrow> row_frame r r2"
  by (simp add: row_frame_def)

lemma spent_process_ad_spend:
  "spent (snd (process_ad_spend c a now d)) i = (if i = cid c then spent d i + a else spent d i)"
  by (auto simp add: process_ad_spend_db spent_def)

lemma map_cid_save [simp]: "map cid (campaigns (save obj fs d)) = map cid (campaigns d)"
  by (simp add: save_def comp_def if_distrib [of cid] cong: if_cong)

lemma map_cid_process_ad_spend [simp]:
  "map cid (campaigns (snd (process_ad_spend c a now d))) = map cid (campaigns d)"
  by (simp add: process_ad_spend_def Let_def del: save_tables(1))

lemma pk_unique_process_ad_spend:
  "pk_unique (snd (process_ad_spend c a now d)) = pk_unique d"
  by (simp add: pk_unique_def)


lemma spent_filter:
  "filter (\<lambda>s. spend_campaign s = i) (spends d') = filter (\<lambda>s. spend_campaign s = i) (spends d)
   \<Longrightarrow> spent d' i = spent d i"
  by (simp add: spent_def)

lemma process_ad_spend_step:
  assumes sync: "get_campaign d (cid c) = Some c" and row: "get_campaign d i = Some r"
  shows "\<exists>r'. get_campaign (snd (process_ad_spend c a now d)) i = Some r'
      \<and> row_frame r r'
      \<and> daily_spend r' - spent (snd (process_ad_spend c a now d)) i = daily_spend r - spent d i
      \<and> monthly_spend r' - spent (snd (process_ad_spend c a now d)) i = monthly_spend r - spent d i
      \<and> (\<exists>new. spends (snd (process_ad_spend c a now d)) = spends d @ new)
      \<and> (i \<noteq> cid c \<longrightarrow> r' = r
            \<and> filter (\<lambda>s. spend_campaign s = i) (spends (snd (process_ad_spend c a now d)))
                = filter (\<lambda>s. spend_campaign s = i) (spends d))"
proof (cases "i = cid c")
  case True
  then have rc: "r = c" using sync row by simp
  show ?thesis
    using process_ad_spend_row [OF sync, of a now] True rc
    by (auto simp add: row_frame_def spent_process_ad_spend process_ad_spend_obj)
       (simp_all add: process_ad_spend_db)
next
  case False
  then show ?thesis
    using process_ad_spend_other [of i c a now d] row
    by (simp add: spent_process_ad_spend) (simp add: process_ad_spend_db)
qed

lemma rows_step:
  assumes "campaigns d' = map G (campaigns d)" and "spends d' = spends d"
    and "\<And>row. cid (G row) = cid row" and "get_campaign d i = Some r"
  shows "get_campaign d' i = Some (G r)" and "pk_unique d' = pk_unique d"
    and "spent d' i = spent d i"
proof -
  show "get_campaign d' i = Some (G r)"
    using find_map_cid [of G i "campaigns d"] assms by (simp add: get_campaign_def)
  have "map cid (campaigns d') = map cid (campaigns d)"
    using assms(1,3) by simp
  then show "pk_unique d' = pk_unique d" by (simp add: pk_unique_def)
  show "spent d' i = spent d i" using assms(2) by (simp add: spent_def)
qed

lemma simulate_loop_step:
  assumes "distinct (map cid (campaigns d))" and "distinct (map cid cs)"
    and "\<forall>c\<in>set cs. get_campaign d (cid c) = Some c" and "get_campaign d i = Some r"
  shows "\<exists>r'. get_campaign (simulate_loop cs draws k now d) i = Some r'
      \<and> map cid (campaigns (simulate_loop cs draws k now d)) = map cid (campaigns d)
      \<and> row_frame r r'
      \<and> daily_spend r' - spent (simulate_loop cs draws k now d) i = daily_spend r - spent d i
      \<and> monthly_spend r' - spent (simulate_loop cs draws k now d) i = monthly_spend r - spent d i
      \<and> (\<exists>new. spends (simulate_loop cs draws k now d) = spends d @ new)
      \<and> (i \<notin> cid ` set cs \<longrightarrow> r' = r
            \<and> filter (\<lambda>s. spend_campaign s = i) (spends (simulate_loop cs draws k now d))
                = filter (\<lambda>s. spend_campaign s = i) (spends d))"
  using assms
proof (induction cs arbitrary: d k r)
  case Nil
  then show ?case by simp
next
  case (Cons c cs)
  have sync_cs: "\<forall>c'\<in>set cs. get_campaign d (cid c') = Some c'"
    using Cons.prems(3) by simp
  have dcs: "distinct (map cid cs)" using Cons.prems(2) by simp
  show ?case
  proof (cases "campaign_schedules d c = [] \<or> \<not> is_within_dayparting d c now")
    case True
    then have eq: "simulate_loop (c # cs) draws k now d = simulate_loop cs draws k now d"
      by auto
    show ?thesis
      unfolding eq using Cons.IH [OF Cons.prems(1) dcs sync_cs Cons.prems(4), of k] by auto
  next
    case False
    let ?d1 = "snd (process_ad_spend c (draws k) now d)"
    let ?d2 = "simulate_loop cs draws (Suc k) now ?d1"
    have eq: "simulate_loop (c # cs) draws k now d = ?d2"
      using False by simp
    have sync_c: "get_campaign d (cid c) = Some c" using Cons.prems(3) by simp
    obtain r1 new1 where r1: "get_campaign ?d1 i = Some r1" "row_frame r r1"
      "daily_spend r1 - spent ?d1 i = daily_spend r - spent d i"
      "monthly_spend r1 - spent ?d1 i = monthly_spend r - spent d i"
      "spends ?d1 = spends d @ new1"
      "i \<noteq> cid c \<longrightarrow> r1 = r
         \<and> filter (\<lambda>s. spend_campaign s = i) (spends ?d1)
            = filter (\<lambda>s. spend_campaign s = i) (spends d)"
      using process_ad_spend_step [OF sync_c Cons.prems(4), of "draws k" now] by blast
    have pk1: "distinct (map cid (campaigns ?d1))" using Cons.prems(1) by simp
    have sync1: "\<forall>c'\<in>set cs. get_campaign ?d1 (cid c') = Some c'"
    proof
      fix c' assume c': "c' \<in> set cs"
      then have "cid c' \<noteq> cid c" using Cons.prems(2) by (auto simp: image_iff)
      then show "get_campaign ?d1 (cid c') = Some c'"
        using process_ad_spend_other [of "cid c'" c "draws k" now d] sync_cs c' by simp
    qed
    obtain r' new2 where r': "get_campaign ?d2 i = Some r'"
      "map cid (campaigns ?d2) = map cid (campaigns ?d1)"
      "row_frame r1 r'"
      "daily_spend r' - spent ?d2 i = daily_spend r1 - spent ?d1 i"
      "monthly_spend r' - spent ?d2 i = monthly_spend r1 - spent ?d1 i"
      "spends ?d2 = spends ?d1 @ new2"
      "i \<notin> cid ` set cs \<longrightarrow> r' = r1
         \<and> filter (\<lambda>s. spend_campaign s = i) (spends ?d2)
            = filter (\<lambda>s. spend_campaign s = i) (spends ?d1)"
      using Cons.IH [OF pk1 dcs sync1 r1(1), of "Suc k"] by blast
    have app: "spends ?d2 = spends d @ (new1 @ new2)" using r1(5) r'(6) by simp
    have other: "i \<notin> cid ` set (c # cs) \<longrightarrow> r' = r
         \<and> filter (\<lambda>s. spend_campaign s = i) (spends ?d2)
            = filter (\<lambda>s. spend_campaign s = i) (spends d)"
      using r1(6) r'(7) by auto
    have dl: "daily_spend r' - spent ?d2 i = daily_spend r - spent d i"
      using r1(3) r'(4) by simp
    have ml: "monthly_spend r' - spent ?d2 i = monthly_spend r - spent d i"
      using r1(4) r'(5) by simp
    have ids: "map cid (campaigns ?d2) = map cid (campaigns d)"
      using r'(2) by simp
    have ex: "\<exists>new. spends ?d2 = spends d @ new" using app by blast
    show ?thesis
      unfolding eq
      using r'(1) ids row_frame_trans [OF r1(2) r'(3)] dl ml ex other by blast
  qed
qed

lemma budget_sweep_row_frame [simp]:
  "cid (budget_sweep_row row) = cid row"
  "daily_budget (budget_sweep_row row) = daily_budget row"
  "monthly_budget (budget_sweep_row row) = monthly_budget row"
  "daily_spend (budget_sweep_row row) = daily_spend row"
  "monthly_spend (budget_sweep_row row) = monthly_spend row"
  "is_active (budget_sweep_row row) = is_active row"
  "status (budget_sweep_row row) = COMPLETED \<longleftrightarrow> status row = COMPLETED"
  by (simp_all add: budget_sweep_row_def)

lemma reactivation_row_frame [simp]:
  "cid (reactivation_row row) = cid row"
  "daily_budget (reactivation_row row) = daily_budget row"
  "monthly_budget (reactivation_row row) = monthly_budget row"
  "daily_spend (reactivation_row row) = daily_spend row"
  "monthly_spend (reactivation_row row) = monthly_spend row"
  "is_active (reactivation_row row) = is_active row"
  "status (reactivation_row row) = COMPLETED \<longleftrightarrow> status row = COMPLETED"
  by (simp_all add: reactivation_row_def)

lemma dayparting_row_frame [simp]:
  "cid (dayparting_row d now row) = cid row"
  "daily_budget (dayparting_row d now row) = daily_budget row"
  "monthly_budget (dayparting_row d now row) = monthly_budget row"
  "daily_spend (dayparting_row d now row) = daily_spend row"
  "monthly_spend (dayparting_row d now row) = monthly_spend row"
  "is_active (dayparting_row d now row) = is_active row"
  by (simp_all add: dayparting_row_def)

lemma dayparting_row_completed:
  "status (dayparting_row d now row) = COMPLETED \<Longrightarrow> status row = COMPLETED"
  by (simp add: dayparting_row_def split: if_splits)

lemma apply_event_step:
  assumes pk: "pk_unique d" and row: "get_campaign d i = Some r"
  shows "\<exists>r'. get_campaign (apply_event e d) i = Some r'
      \<and> pk_unique (apply_event e d) \<and> row_frame r r'
      \<and> (\<exists>new. spends (apply_event e d) = spends d @ new)
      \<and> (e \<noteq> Reset_daily \<longrightarrow>
            daily_spend r' - spent (apply_event e d) i = daily_spend r - spent d i)
      \<and> (e \<noteq> Reset_monthly \<longrightarrow>
            monthly_spend r' - spent (apply_event e d) i = monthly_spend r - spent d i)
      \<and> (e = Reset_daily \<longrightarrow> daily_spend r' = 0 \<and> spends (apply_event e d) = spends d)
      \<and> (e = Reset_monthly \<longrightarrow> monthly_spend r' = 0 \<and> spends (apply_event e d) = spends d)"
proof -
  have dist: "distinct (map cid (campaigns d))" using pk by (simp add: pk_unique_def)
  show ?thesis
  proof (cases e)
    case (Record_spend j a now)
    show ?thesis
    proof (cases "get_campaign d j")
      case None
      then show ?thesis using Record_spend pk row by simp
    next
      case (Some c)
      then have sync: "get_campaign d (cid c) = Some c"
        using get_campaign_cid [OF Some] by simp
      show ?thesis
        using process_ad_spend_step [OF sync row, of a now] pk Record_spend Some
        by (auto simp add: pk_unique_process_ad_spend)
    qed
  next
    case Sweep_budgets
    let ?d' = "pause_campaigns_exceeding_budget d"
    have "campaigns ?d' = map budget_sweep_row (campaigns d)" "spends ?d' = spends d"
      by (simp_all add: pause_campaigns_exceeding_budget_rows [OF dist])
    from rows_step [OF this _ row] this(2)
    show ?thesis using pk by (simp add: Sweep_budgets row_frame_def)
  next
    case Reset_daily
    from rows_step [OF reset_daily_budgets_campaigns(1,2) [OF dist] _ row]
      reset_daily_budgets_campaigns(2) [OF dist]
    show ?thesis using pk by (simp add: Reset_daily row_frame_def)
  next
    case Reset_monthly
    from rows_step [OF reset_monthly_budgets_campaigns(1,2) [OF dist] _ row]
      reset_monthly_budgets_campaigns(2) [OF dist]
    show ?thesis using pk by (simp add: Reset_monthly row_frame_def)
  next
    case Sweep_reactivations
    let ?d' = "reactivate_eligible_campaigns d"
    have "campaigns ?d' = map reactivation_row (campaigns d)" "spends ?d' = spends d"
      by (simp_all add: reactivate_eligible_campaigns_rows [OF dist])
    from rows_step [OF this _ row] this(2)
    show ?thesis using pk by (simp add: Sweep_reactivations row_frame_def)
  next
    case (Sweep_dayparting now)
    let ?d' = "enforce_dayparting now d"
    have "campaigns ?d' = map (dayparting_row d now) (campaigns d)" "spends ?d' = spends d"
      by (simp_all add: enforce_dayparting_rows [OF dist])
    from rows_step [OF this _ row] this(2)
    show ?thesis
      using pk dayparting_row_completed [of d now r]
      by (auto simp add: Sweep_dayparting row_frame_def)
  next
    case (Simulate draws now)
    let ?cs = "filter (\<lambda>c. is_active c \<and> status c = ACTIVE) (campaigns d)"
    have dcs: "distinct (map cid ?cs)" using dist by (rule distinct_map_filter)
    have sync: "\<forall>c\<in>set ?cs. get_campaign d (cid c) = Some c"
      using get_campaign_member [OF dist] by simp
    from simulate_loop_step [OF dist dcs sync row, of draws 0 now]
    show ?thesis
      by (auto simp add: Simulate simulate_ad_spend_def pk_unique_def dist)
  qed
qed

lemma run_events_step:
  assumes "pk_unique d" and "get_campaign d i = Some r"
  shows "\<exists>r'. get_campaign (run_events evs d) i = Some r'
      \<and> pk_unique (run_events evs d) \<and> row_frame r r'
      \<and> (\<exists>new. spends (run_events evs d) = spends d @ new)
      \<and> (Reset_daily \<notin> set evs \<longrightarrow>
            daily_spend r' - spent (run_events evs d) i = daily_spend r - spent d i)
      \<and> (Reset_monthly \<notin> set evs \<longrightarrow>
            monthly_spend r' - spent (run_events evs d) i = monthly_spend r - spent d i)"
  using assms
proof (induction evs arbitrary: d r)
  case Nil
  then show ?case by (simp add: run_events_def)
next
  case (Cons e evs)
  let ?d1 = "apply_event e d"
  let ?d2 = "run_events evs ?d1"
  obtain r1 new1 where r1: "get_campaign ?d1 i = Some r1"
    "pk_unique ?d1" "row_frame r r1" "spends ?d1 = spends d @ new1"
    "e \<noteq> Reset_daily \<longrightarrow> daily_spend r1 - spent ?d1 i = daily_spend r - spent d i"
    "e \<noteq> Reset_monthly \<longrightarrow> monthly_spend r1 - spent ?d1 i = monthly_spend r - spent d i"
    using apply_event_step [OF Cons.prems, of e] by blast
  obtain r' new2 where r': "get_campaign ?d2 i = Some r'"
    "pk_unique ?d2" "row_frame r1 r'" "spends ?d2 = spends ?d1 @ new2"
    "Reset_daily \<notin> set evs \<longrightarrow> daily_spend r' - spent ?d2 i = daily_spend r1 - spent ?d1 i"
    "Reset_monthly \<notin> set evs \<longrightarrow> monthly_spend r' - spent ?d2 i = monthly_spend r1 - spent ?d1 i"
    using Cons.IH [OF r1(2) r1(1)] by blast
  have eq: "run_events (e # evs) d = ?d2"
    by (simp add: run_events_def)
  have ex: "\<exists>new. spends ?d2 = spends d @ new" using r1(4) r'(4) by simp
  have dl: "Reset_daily \<notin> set (e # evs) \<longrightarrow>
      daily_spend r' - spent ?d2 i = daily_spend r - spent d i"
    using r1(5) r'(5) by auto
  have ml: "Reset_monthly \<notin> set (e # evs) \<longrightarrow>
      monthly_spend r' - spent ?d2 i = monthly_spend r - spent d i"
    using r1(6) r'(6) by auto
  show ?case
    unfolding eq using r'(1,2) row_frame_trans [OF r1(3) r'(3)] ex dl ml by blast
qed

subsection \<open>Further facts about the row functions and the tasks\<close>

lemmas ex_defs = ex_now_def ex_brand_def ex_campaign_def ex_schedule_def ex_db_def

lemma budget_sweep_row_skip:
  "\<not> (is_active x \<and> status x = ACTIVE) \<Longrightarrow> budget_sweep_row x = x"
  unfolding budget_sweep_row_def by (rule if_not_P)

lemma budget_sweep_row_active:
  assumes "status (budget_sweep_row row) = ACTIVE"
  shows "budget_sweep_row row = row"
proof -
  have "\<not> (is_active row \<and> status row = ACTIVE \<and> daily_spend row \<ge> daily_budget row)"
    and "\<not> (is_active row \<and> status row = ACTIVE \<and> monthly_spend row \<ge> monthly_budget row)"
    using assms by (auto simp add: budget_sweep_row_def split: if_splits)
  then show ?thesis
    by (cases "is_active row \<and> status row = ACTIVE") (auto simp add: budget_sweep_row_def)
qed

lemma budget_sweep_row_idem: "budget_sweep_row (budget_sweep_row row) = budget_sweep_row row"
proof (cases "status (budget_sweep_row row) = ACTIVE")
  case True
  then have "budget_sweep_row row = row" by (rule budget_sweep_row_active)
  then show ?thesis by (simp only:)
next
  case False
  then show ?thesis by (intro budget_sweep_row_skip) simp
qed

lemma task_rows_at:
  assumes "pk_unique d" and "get_campaign d i = Some r"
  shows "get_campaign (pause_campaigns_exceeding_budget d) i = Some (budget_sweep_row r)"
    and "get_campaign (reactivate_eligible_campaigns d) i = Some (reactivation_row r)"
    and "get_campaign (enforce_dayparting now d) i = Some (dayparting_row d now r)"
    and "get_campaign (reset_daily_budgets d) i = Some (r\<lparr>daily_spend := 0\<rparr>)"
    and "get_campaign (reset_monthly_budgets d) i = Some (r\<lparr>monthly_spend := 0\<rparr>)"
proof -
  have dist: "distinct (map cid (campaigns d))"
    using assms(1) by (simp add: pk_unique_def)
  have "campaigns (pause_campaigns_exceeding_budget d) = map budget_sweep_row (campaigns d)"
    "spends (pause_campaigns_exceeding_budget d) = spends d"
    by (simp_all add: pause_campaigns_exceeding_budget_rows [OF dist])
  from rows_step(1) [OF this _ assms(2)]
  show "get_campaign (pause_campaigns_exceeding_budget d) i = Some (budget_sweep_row r)" by simp
  have "campaigns (reactivate_eligible_campaigns d) = map reactivation_row (campaigns d)"
    "spends (reactivate_eligible_campaigns d) = spends d"
    by (simp_all add: reactivate_eligible_campaigns_rows [OF dist])
  from rows_step(1) [OF this _ assms(2)]
  show "get_campaign (reactivate_eligible_campaigns d) i = Some (reactivation_row r)" by simp
  have "campaigns (enforce_dayparting now d) = map (dayparting_row d now) (campaigns d)"
    "spends (enforce_dayparting now d) = spends d"
    by (simp_all add: enforce_dayparting_rows [OF dist])
  from rows_step(1) [OF this _ assms(2)]
  show "get_campaign (enforce_dayparting now d) i = Some (dayparting_row d now r)" by simp
  from rows_step(1) [OF reset_daily_budgets_campaigns(1,2) [OF dist] _ assms(2)]
  show "get_campaign (reset_daily_budgets d) i = Some (r\<lparr>daily_spend := 0\<rparr>)" by simp
  from rows_step(1) [OF reset_monthly_budgets_campaigns(1,2) [OF dist] _ assms(2)]
  show "get_campaign (reset_monthly_budgets d) i = Some (r\<lparr>monthly_spend := 0\<rparr>)" by simp
qed

subsection \<open>The ledger after a reset, and campaigns whose flag is false\<close>




lemma simulate_skips_inactive:
  assumes pk: "pk_unique d" and row: "get_campaign d i = Some r" and off: "\<not> is_active r"
  shows "get_campaign (simulate_ad_spend draws now d) i = Some r"
    and "filter (\<lambda>s. spend_campaign s = i) (spends (simulate_ad_spend draws now d))
       = filter (\<lambda>s. spend_campaign s = i) (spends d)"
proof -
  have dist: "distinct (map cid (campaigns d))" using pk by (simp add: pk_unique_def)
  let ?cs = "filter (\<lambda>c. is_active c \<and> status c = ACTIVE) (campaigns d)"
  have dcs: "distinct (map cid ?cs)" using dist by (rule distinct_map_filter)
  have sync: "\<forall>c\<in>set ?cs. get_campaign d (cid c) = Some c"
    using get_campaign_member [OF dist] by simp
  have notin: "i \<notin> cid ` set ?cs"
  proof
    assume "i \<in> cid ` set ?cs"
    then obtain c where c: "c \<in> set ?cs" "cid c = i" by auto
    then have "get_campaign d i = Some c" using sync by auto
    then have "c = r" using row by simp
    then show False using c(1) off by simp
  qed
  from simulate_loop_step [OF dist dcs sync row, of draws 0 now] notin
  show "get_campaign (simulate_ad_spend draws now d) i = Some r"
    and "filter (\<lambda>s. spend_campaign s = i) (spends (simulate_ad_spend draws now d))
       = filter (\<lambda>s. spend_campaign s = i) (spends d)"
    by (auto simp add: simulate_ad_spend_def)
qed

lemma is_active_save_status [simp]:
  "map is_active (campaigns (save obj [F_status, F_pause_reason] d)) = map is_active (campaigns d)"
  by (simp add: save_def comp_def if_distrib [of is_active] cong: if_cong)

lemma reactivation_keeps_is_active:
  "map is_active (campaigns (reactivate_eligible_campaigns d)) = map is_active (campaigns d)"
proof -
  have "map is_active (campaigns (fold reactivate_body cs d')) = map is_active (campaigns d')"
    for cs d'
    by (induction cs arbitrary: d') (simp_all add: reactivate_body_def del: save_tables(1))
  then show ?thesis by (simp add: reactivate_eligible_campaigns_def)
qed

section \<open>The time-window evaluator meets its two-branch contract\<close>

text \<open>
  C2. For all \<open>start\<close>, \<open>end\<close>, \<open>hour\<close> (in particular those in 0..23),
  \<open>is_hour_in_range start end hour\<close> holds exactly when either \<open>start < end\<close> and
  \<open>start \<le> hour < end\<close>, or \<open>start \<ge> end\<close> and (\<open>hour \<ge> start\<close> or \<open>hour < end\<close>).
  For the window 22 to 2 the hours 22, 23, 0 and 1 are in range and the hours 2 and 14 are
  not; when \<open>start = end\<close> every hour is in range.
\<close>

theorem is_hour_in_range_two_branch:
  "(is_hour_in_range start end hour \<longleftrightarrow>
      (start < end \<and> start \<le> hour \<and> hour < end) \<or>
      (start \<ge> end \<and> (hour \<ge> start \<or> hour < end)))
   \<and> is_hour_in_range 22 2 22 \<and> is_hour_in_range 22 2 23
   \<and> is_hour_in_range 22 2 0 \<and> is_hour_in_range 22 2 1
   \<and> \<not> is_hour_in_range 22 2 2 \<and> \<not> is_hour_in_range 22 2 14
   \<and> is_hour_in_range start start hour"
  unfolding is_hour_in_range_def by auto

theorem is_hour_in_range_two_branch_witness:
  "is_hour_in_range 9 17 14 \<and> \<not> is_hour_in_range 9 17 17 \<and> is_hour_in_range 5 5 3"
  using is_hour_in_range_two_branch [of 9 17 14] is_hour_in_range_two_branch [of 9 17 17]
    is_hour_in_range_two_branch [of 5 5 3]
  by simp

section \<open>Strict comparison when recording, inclusive comparison when sweeping\<close>

text \<open>
  C1, as amended. Recording a spend changes the status, pause reason or \<open>is_active\<close> flag
  of the campaign only when an updated accumulator is strictly above its budget. The
  periodic budget sweep pauses a campaign it visits (flag true, status Active) as soon as
  an accumulator is at or above its budget. Hence for every campaign with the flag true
  and status Active whose updated daily spend lands exactly on its daily budget, and
  whose updated monthly spend is not above its monthly budget, recording does not pause it
  and the next budget sweep pauses it with \<open>DAILY_BUDGET_EXCEEDED\<close>.
\<close>

theorem inline_strict_sweep_inclusive:
  "(status (fst (process_ad_spend c amt now d)) \<noteq> status c
      \<or> pause_reason (fst (process_ad_spend c amt now d)) \<noteq> pause_reason c
      \<or> is_active (fst (process_ad_spend c amt now d)) \<noteq> is_active c
    \<longrightarrow> daily_spend c + amt > daily_budget c \<or> monthly_spend c + amt > monthly_budget c)
   \<and> (pk_unique d \<and> get_campaign d i = Some r \<and> is_active r \<and> status r = ACTIVE
        \<and> (daily_spend r \<ge> daily_budget r \<or> monthly_spend r \<ge> monthly_budget r)
      \<longrightarrow> (\<exists>r'. get_campaign (pause_campaigns_exceeding_budget d) i = Some r'
             \<and> status r' = PAUSED))
   \<and> (pk_unique d \<and> get_campaign d (cid c) = Some c \<and> is_active c \<and> status c = ACTIVE
        \<and> daily_spend c + amt = daily_budget c \<and> monthly_spend c + amt \<le> monthly_budget c
      \<longrightarrow> fst (process_ad_spend c amt now d)
            = c\<lparr>daily_spend := daily_spend c + amt, monthly_spend := monthly_spend c + amt\<rparr>
          \<and> get_campaign (snd (process_ad_spend c amt now d)) (cid c)
            = Some (c\<lparr>daily_spend := daily_spend c + amt, monthly_spend := monthly_spend c + amt\<rparr>)
          \<and> get_campaign (pause_campaigns_exceeding_budget (snd (process_ad_spend c amt now d))) (cid c)
            = Some (c\<lparr>daily_spend := daily_spend c + amt, monthly_spend := monthly_spend c + amt,
                      status := PAUSED, pause_reason := Some ''DAILY_BUDGET_EXCEEDED''\<rparr>))"
proof (intro conjI impI)
  assume "status (fst (process_ad_spend c amt now d)) \<noteq> status c
      \<or> pause_reason (fst (process_ad_spend c amt now d)) \<noteq> pause_reason c
      \<or> is_active (fst (process_ad_spend c amt now d)) \<noteq> is_active c"
  then show "daily_spend c + amt > daily_budget c \<or> monthly_spend c + amt > monthly_budget c"
    by (auto simp add: process_ad_spend_obj split: if_splits)
next
  assume h: "pk_unique d \<and> get_campaign d i = Some r \<and> is_active r \<and> status r = ACTIVE
        \<and> (daily_spend r \<ge> daily_budget r \<or> monthly_spend r \<ge> monthly_budget r)"
  then have "get_campaign (pause_campaigns_exceeding_budget d) i = Some (budget_sweep_row r)"
    by (simp add: task_rows_at(1))
  moreover have "status (budget_sweep_row r) = PAUSED"
    using h by (auto simp add: budget_sweep_row_def)
  ultimately show "\<exists>r'. get_campaign (pause_campaigns_exceeding_budget d) i = Some r'
             \<and> status r' = PAUSED" by blast
next
  assume h: "pk_unique d \<and> get_campaign d (cid c) = Some c \<and> is_active c \<and> status c = ACTIVE
        \<and> daily_spend c + amt = daily_budget c \<and> monthly_spend c + amt \<le> monthly_budget c"
  let ?c1 = "c\<lparr>daily_spend := daily_spend c + amt, monthly_spend := monthly_spend c + amt\<rparr>"
  let ?d1 = "snd (process_ad_spend c amt now d)"
  show obj: "fst (process_ad_spend c amt now d) = ?c1"
    using h by (simp add: process_ad_spend_obj)
  show row: "get_campaign ?d1 (cid c) = Some ?c1"
    using h process_ad_spend_row [of d c amt now] obj by simp
  have pk1: "pk_unique ?d1" using h by (simp add: pk_unique_process_ad_spend)
  have "budget_sweep_row ?c1
      = ?c1\<lparr>status := PAUSED, pause_reason := Some ''DAILY_BUDGET_EXCEEDED''\<rparr>"
    using h by (simp add: budget_sweep_row_def)
  then show "get_campaign (pause_campaigns_exceeding_budget ?d1) (cid c)
            = Some (c\<lparr>daily_spend := daily_spend c + amt, monthly_spend := monthly_spend c + amt,
                      status := PAUSED, pause_reason := Some ''DAILY_BUDGET_EXCEEDED''\<rparr>)"
    using task_rows_at(1) [OF pk1 row] by simp
qed

text \<open>
  A spend of 10.00 on a campaign at 40.00 of 50.00 is recorded without a pause, and the
  sweep then pauses the campaign; at 45.00 the same spend pauses it inline; a campaign
  sitting at 50.00 of 50.00 is paused by the sweep.
\<close>

theorem inline_strict_sweep_inclusive_witness:
  "pk_unique (ex_db\<lparr>campaigns := [ex_campaign\<lparr>daily_spend := 40\<rparr>]\<rparr>)
   \<and> get_campaign (ex_db\<lparr>campaigns := [ex_campaign\<lparr>daily_spend := 40\<rparr>]\<rparr>) 1
       = Some (ex_campaign\<lparr>daily_spend := 40\<rparr>)
   \<and> fst (process_ad_spend (ex_campaign\<lparr>daily_spend := 40\<rparr>) 10 ex_now
         (ex_db\<lparr>campaigns := [ex_campaign\<lparr>daily_spend := 40\<rparr>]\<rparr>))
       = ex_campaign\<lparr>daily_spend := 50, monthly_spend := 10\<rparr>
   \<and> get_campaign (pause_campaigns_exceeding_budget
         (snd (process_ad_spend (ex_campaign\<lparr>daily_spend := 40\<rparr>) 10 ex_now
           (ex_db\<lparr>campaigns := [ex_campaign\<lparr>daily_spend := 40\<rparr>]\<rparr>)))) 1
       = Some (ex_campaign\<lparr>daily_spend := 50, monthly_spend := 10, status := PAUSED,
           pause_reason := Some ''DAILY_BUDGET_EXCEEDED''\<rparr>)
   \<and> status (fst (process_ad_spend (ex_campaign\<lparr>daily_spend := 45\<rparr>) 10 ex_now
         (ex_db\<lparr>campaigns := [ex_campaign\<lparr>daily_spend := 45\<rparr>]\<rparr>)))
       \<noteq> status (ex_campaign\<lparr>daily_spend := 45\<rparr>)
   \<and> (daily_budget (ex_campaign\<lparr>daily_spend := 45\<rparr>)
         < daily_spend (ex_campaign\<lparr>daily_spend := 45\<rparr>) + 10
       \<or> monthly_budget (ex_campaign\<lparr>daily_spend := 45\<rparr>)
         < monthly_spend (ex_campaign\<lparr>daily_spend := 45\<rparr>) + 10)
   \<and> pk_unique (ex_db\<lparr>campaigns := [ex_campaign\<lparr>daily_spend := 50\<rparr>]\<rparr>)
   \<and> get_campaign (ex_db\<lparr>campaigns := [ex_campaign\<lparr>daily_spend := 50\<rparr>]\<rparr>) 1
       = Some (ex_campaign\<lparr>daily_spend := 50\<rparr>)
   \<and> daily_budget (ex_campaign\<lparr>daily_spend := 50\<rparr>)
       \<le> daily_spend (ex_campaign\<lparr>daily_spend := 50\<rparr>)
   \<and> (\<exists>r'. get_campaign (pause_campaigns_exceeding_budget
           (ex_db\<lparr>campaigns := [ex_campaign\<lparr>daily_spend := 50\<rparr>]\<rparr>)) 1 = Some r'
         \<and> status r' = PAUSED)"
proof -
  let ?c = "ex_campaign\<lparr>daily_spend := 40\<rparr>"
  let ?d = "ex_db\<lparr>campaigns := [?c]\<rparr>"
  have h: "pk_unique ?d \<and> get_campaign ?d (cid ?c) = Some ?c \<and> is_active ?c \<and> status ?c = ACTIVE
        \<and> daily_spend ?c + 10 = daily_budget ?c \<and> monthly_spend ?c + 10 \<le> monthly_budget ?c"
    by (simp add: pk_unique_def get_campaign_def ex_defs)
  have c1: "cid ?c = 1" by (simp add: ex_defs)
  have v: "?c\<lparr>daily_spend := daily_spend ?c + 10, monthly_spend := monthly_spend ?c + 10\<rparr>
      = ex_campaign\<lparr>daily_spend := 50, monthly_spend := 10\<rparr>"
    "?c\<lparr>daily_spend := daily_spend ?c + 10, monthly_spend := monthly_spend ?c + 10,
         status := PAUSED, pause_reason := Some ''DAILY_BUDGET_EXCEEDED''\<rparr>
      = ex_campaign\<lparr>daily_spend := 50, monthly_spend := 10, status := PAUSED,
           pause_reason := Some ''DAILY_BUDGET_EXCEEDED''\<rparr>"
    by (simp_all add: ex_defs)
  from inline_strict_sweep_inclusive
    [where c = ?c and amt = 10 and now = ex_now and d = ?d, THEN conjunct2, THEN conjunct2]
  have boundary: "pk_unique ?d \<and> get_campaign ?d 1 = Some ?c
      \<and> fst (process_ad_spend ?c 10 ex_now ?d) = ex_campaign\<lparr>daily_spend := 50, monthly_spend := 10\<rparr>
      \<and> get_campaign (pause_campaigns_exceeding_budget (snd (process_ad_spend ?c 10 ex_now ?d))) 1
        = Some (ex_campaign\<lparr>daily_spend := 50, monthly_spend := 10, status := PAUSED,
            pause_reason := Some ''DAILY_BUDGET_EXCEEDED''\<rparr>)"
    using h unfolding c1 v by simp
  let ?c45 = "ex_campaign\<lparr>daily_spend := 45\<rparr>"
  let ?d45 = "ex_db\<lparr>campaigns := [?c45]\<rparr>"
  have changed: "status (fst (process_ad_spend ?c45 10 ex_now ?d45)) \<noteq> status ?c45"
    by (simp add: process_ad_spend_obj ex_defs)
  from inline_strict_sweep_inclusive
    [where c = ?c45 and amt = 10 and now = ex_now and d = ?d45, THEN conjunct1] changed
  have strict: "daily_budget ?c45 < daily_spend ?c45 + 10
      \<or> monthly_budget ?c45 < monthly_spend ?c45 + 10"
    by blast
  let ?c50 = "ex_campaign\<lparr>daily_spend := 50\<rparr>"
  let ?d50 = "ex_db\<lparr>campaigns := [?c50]\<rparr>"
  have h50: "pk_unique ?d50" "get_campaign ?d50 1 = Some ?c50" "is_active ?c50"
    "status ?c50 = ACTIVE" "daily_budget ?c50 \<le> daily_spend ?c50"
    by (simp_all add: pk_unique_def get_campaign_def ex_defs)
  from inline_strict_sweep_inclusive
    [where d = ?d50 and i = 1 and r = ?c50 and c = ?c50, THEN conjunct2, THEN conjunct1] h50
  have sweep: "\<exists>r'. get_campaign (pause_campaigns_exceeding_budget ?d50) 1 = Some r'
         \<and> status r' = PAUSED"
    by blast
  show ?thesis using boundary changed strict h50(1,2,5) sweep by blast
qed

text \<open>
  The claim as first stated, for every campaign whose daily spend lands on its daily
  budget, fails twice. With 495.00 of 500.00 already spent in the month, the same spend
  of 10.00 puts the daily spend exactly on 50.00 and the recording pauses the campaign,
  for its monthly budget. And a campaign whose \<open>is_active\<close> flag is false is not visited
  by the sweep: after the recording it sits on its daily budget, and the sweep leaves it
  Active.
\<close>

theorem inline_boundary_counterexample:
  "process_ad_spend (ex_campaign\<lparr>daily_spend := 40, monthly_spend := 495\<rparr>) 10 ex_now
       (ex_db\<lparr>campaigns := [ex_campaign\<lparr>daily_spend := 40, monthly_spend := 495\<rparr>]\<rparr>)
     = (ex_campaign\<lparr>daily_spend := 50, monthly_spend := 505, status := PAUSED,
          pause_reason := Some ''MONTHLY_BUDGET_EXCEEDED'', is_active := False\<rparr>,
        ex_db\<lparr>campaigns := [ex_campaign\<lparr>daily_spend := 50, monthly_spend := 505,
            status := PAUSED, pause_reason := Some ''MONTHLY_BUDGET_EXCEEDED'',
            is_active := False\<rparr>],
          spends := [\<lparr>spend_campaign = 1, amount = 10, spend_date = 738900,
                      spend_hour = Some 20\<rparr>]\<rparr>)
   \<and> daily_budget ex_campaign = 50
   \<and> pause_campaigns_exceeding_budget
        (snd (process_ad_spend (ex_campaign\<lparr>daily_spend := 40, is_active := False\<rparr>) 10 ex_now
           (ex_db\<lparr>campaigns := [ex_campaign\<lparr>daily_spend := 40, is_active := False\<rparr>]\<rparr>)))
     = ex_db\<lparr>campaigns := [ex_campaign\<lparr>daily_spend := 50, monthly_spend := 10,
                                is_active := False\<rparr>],
          spends := [\<lparr>spend_campaign = 1, amount = 10, spend_date = 738900,
                      spend_hour = Some 20\<rparr>]\<rparr>
   \<and> status (ex_campaign\<lparr>daily_spend := 50, monthly_spend := 10, is_active := False\<rparr>) = ACTIVE"
  by (simp add: process_ad_spend_def save_def Let_def pause_campaigns_exceeding_budget_def
      ex_defs)

section \<open>Recording a spend, and the ledger after a reset\<close>



section \<open>The dayparting sweep and campaigns paused for their budget\<close>

text \<open>
  C4, as amended. A campaign paused with reason \<open>DAILY_BUDGET_EXCEEDED\<close> or
  \<open>MONTHLY_BUDGET_EXCEEDED\<close> stays paused through the dayparting sweep. Its pause reason is
  unchanged when its \<open>is_active\<close> flag is false (as after an inline pause), when it has no
  schedule, or when the current time is within its dayparting window; when the flag is
  true, it has a schedule and the time is outside the window, the sweep overwrites the
  reason with \<open>OUTSIDE_DAYPARTING_HOURS\<close>. No other field changes.
\<close>

theorem dayparting_on_budget_paused:
  assumes "pk_unique d" and "get_campaign d i = Some r" and "status r = PAUSED"
    and "pause_reason r = Some ''DAILY_BUDGET_EXCEEDED''
       \<or> pause_reason r = Some ''MONTHLY_BUDGET_EXCEEDED''"
  shows "\<exists>r'. get_campaign (enforce_dayparting now d) i = Some r'
      \<and> status r' = PAUSED
      \<and> r' = (if is_active r \<and> campaign_schedules d r \<noteq> [] \<and> \<not> is_within_dayparting d r now
              then r\<lparr>pause_reason := Some ''OUTSIDE_DAYPARTING_HOURS''\<rparr> else r)"
proof (cases "is_active r \<and> campaign_schedules d r \<noteq> [] \<and> \<not> is_within_dayparting d r now")
  case True
  have "r\<lparr>status := PAUSED, pause_reason := Some ''OUTSIDE_DAYPARTING_HOURS''\<rparr>
      = r\<lparr>pause_reason := Some ''OUTSIDE_DAYPARTING_HOURS''\<rparr>"
    using assms(3) by (intro campaign.equality) simp_all
  moreover have "dayparting_row d now r
      = r\<lparr>status := PAUSED, pause_reason := Some ''OUTSIDE_DAYPARTING_HOURS''\<rparr>"
    using True assms(4) by (auto simp add: dayparting_row_def)
  ultimately show ?thesis
    unfolding if_P [OF True]
    using task_rows_at(3) [OF assms(1,2), of now] assms(3) by simp
next
  case False
  have "dayparting_row d now r = r"
    using False assms(3,4) by (auto simp add: dayparting_row_def)
  then show ?thesis
    unfolding if_not_P [OF False]
    using task_rows_at(3) [OF assms(1,2), of now] assms(3) by simp
qed

theorem dayparting_on_budget_paused_witness:
  "pk_unique (ex_db\<lparr>campaigns := [ex_campaign\<lparr>daily_spend := 50, status := PAUSED,
       pause_reason := Some ''DAILY_BUDGET_EXCEEDED''\<rparr>]\<rparr>)
   \<and> get_campaign (ex_db\<lparr>campaigns := [ex_campaign\<lparr>daily_spend := 50, status := PAUSED,
       pause_reason := Some ''DAILY_BUDGET_EXCEEDED''\<rparr>]\<rparr>) 1
     = Some (ex_campaign\<lparr>daily_spend := 50, status := PAUSED,
       pause_reason := Some ''DAILY_BUDGET_EXCEEDED''\<rparr>)
   \<and> get_campaign (enforce_dayparting ex_now
       (ex_db\<lparr>campaigns := [ex_campaign\<lparr>daily_spend := 50, status := PAUSED,
         pause_reason := Some ''DAILY_BUDGET_EXCEEDED''\<rparr>]\<rparr>)) 1
     = Some (ex_campaign\<lparr>daily_spend := 50, status := PAUSED,
       pause_reason := Some ''OUTSIDE_DAYPARTING_HOURS''\<rparr>)"
proof -
  let ?r = "ex_campaign\<lparr>daily_spend := 50, status := PAUSED,
       pause_reason := Some ''DAILY_BUDGET_EXCEEDED''\<rparr>"
  let ?d = "ex_db\<lparr>campaigns := [?r]\<rparr>"
  have h: "pk_unique ?d" "get_campaign ?d 1 = Some ?r" "status ?r = PAUSED"
    "pause_reason ?r = Some ''DAILY_BUDGET_EXCEEDED''
       \<or> pause_reason ?r = Some ''MONTHLY_BUDGET_EXCEEDED''"
    by (simp_all add: pk_unique_def get_campaign_def ex_defs)
  have c: "is_active ?r \<and> campaign_schedules ?d ?r \<noteq> [] \<and> \<not> is_within_dayparting ?d ?r ex_now"
    by (simp add: campaign_schedules_def is_within_dayparting_def weekday_def
        is_hour_in_range_def ex_defs)
  show ?thesis
    using h(1,2) dayparting_on_budget_paused [OF h, of ex_now] c by simp
qed

text \<open>
  The claim as first stated, that the sweep leaves the pause reason of every budget-paused
  campaign alone, fails: the periodic budget sweep pauses the example campaign at 50.00
  of 50.00 without clearing \<open>is_active\<close>, and on Monday at 20:00, outside its 9 to 17
  schedule, the dayparting sweep replaces the reason.
\<close>

theorem dayparting_overwrites_budget_pause:
  "pause_campaigns_exceeding_budget (ex_db\<lparr>campaigns := [ex_campaign\<lparr>daily_spend := 50\<rparr>]\<rparr>)
     = ex_db\<lparr>campaigns := [ex_campaign\<lparr>daily_spend := 50, status := PAUSED,
         pause_reason := Some ''DAILY_BUDGET_EXCEEDED''\<rparr>]\<rparr>
   \<and> enforce_dayparting ex_now
       (ex_db\<lparr>campaigns := [ex_campaign\<lparr>daily_spend := 50, status := PAUSED,
         pause_reason := Some ''DAILY_BUDGET_EXCEEDED''\<rparr>]\<rparr>)
     = ex_db\<lparr>campaigns := [ex_campaign\<lparr>daily_spend := 50, status := PAUSED,
         pause_reason := Some ''OUTSIDE_DAYPARTING_HOURS''\<rparr>]\<rparr>"
  by (simp add: pause_campaigns_exceeding_budget_def check_budget_limits_def save_def Let_def
      enforce_dayparting_def enforce_dayparting_body_def campaign_schedules_def
      is_within_dayparting_def weekday_def is_hour_in_range_def ex_defs)

section \<open>The Completed status\<close>

text \<open>
  C5, as amended. The budget sweep, the reactivation sweep and the two resets never change
  the status of a campaign whose status is Completed, and no operation, in any run, sets a
  status to Completed. Recording a spend on a Completed campaign leaves its status
  unless an updated accumulator is strictly above its budget, in which case the campaign
  becomes Paused; the dayparting sweep leaves a Completed campaign unless its \<open>is_active\<close>
  flag is true, it has a schedule and the current time is outside its window, in which
  case the campaign becomes Paused with \<open>OUTSIDE_DAYPARTING_HOURS\<close>.
\<close>

theorem completed_status_frame:
  "(pk_unique d \<and> get_campaign d i = Some r \<and> status r = COMPLETED
      \<longrightarrow> get_campaign (pause_campaigns_exceeding_budget d) i = Some r
          \<and> get_campaign (reactivate_eligible_campaigns d) i = Some r
          \<and> get_campaign (reset_daily_budgets d) i = Some (r\<lparr>daily_spend := 0\<rparr>)
          \<and> get_campaign (reset_monthly_budgets d) i = Some (r\<lparr>monthly_spend := 0\<rparr>)
          \<and> get_campaign (enforce_dayparting now d) i
            = Some (if is_active r \<and> campaign_schedules d r \<noteq> []
                        \<and> \<not> is_within_dayparting d r now
                    then r\<lparr>status := PAUSED, pause_reason := Some ''OUTSIDE_DAYPARTING_HOURS''\<rparr>
                    else r))
   \<and> (status c = COMPLETED
      \<longrightarrow> status (fst (process_ad_spend c amt now d))
            = (if daily_spend c + amt > daily_budget c \<or> monthly_spend c + amt > monthly_budget c
               then PAUSED else COMPLETED))
   \<and> (status (fst (process_ad_spend c amt now d)) = COMPLETED \<longrightarrow> status c = COMPLETED)
   \<and> (pk_unique d \<and> get_campaign d i = Some r \<and> get_campaign (run_events evs d) i = Some r'
        \<and> status r' = COMPLETED
      \<longrightarrow> status r = COMPLETED)"
proof (intro conjI impI)
  assume h: "pk_unique d \<and> get_campaign d i = Some r \<and> status r = COMPLETED"
  then have pk: "pk_unique d" and row: "get_campaign d i = Some r" and st: "status r = COMPLETED"
    by simp_all
  have "budget_sweep_row r = r" using st by (intro budget_sweep_row_skip) simp
  then show "get_campaign (pause_campaigns_exceeding_budget d) i = Some r"
    using task_rows_at(1) [OF pk row] by (simp only:)
  have "reactivation_row r = r" using st by (simp add: reactivation_row_def)
  then show "get_campaign (reactivate_eligible_campaigns d) i = Some r"
    using task_rows_at(2) [OF pk row] by (simp only:)
  show "get_campaign (reset_daily_budgets d) i = Some (r\<lparr>daily_spend := 0\<rparr>)"
    using pk row by (rule task_rows_at(4))
  show "get_campaign (reset_monthly_budgets d) i = Some (r\<lparr>monthly_spend := 0\<rparr>)"
    using pk row by (rule task_rows_at(5))
  have "dayparting_row d now r
      = (if is_active r \<and> campaign_schedules d r \<noteq> [] \<and> \<not> is_within_dayparting d r now
         then r\<lparr>status := PAUSED, pause_reason := Some ''OUTSIDE_DAYPARTING_HOURS''\<rparr>
         else r)"
    using st by (simp add: dayparting_row_def)
  then show "get_campaign (enforce_dayparting now d) i
            = Some (if is_active r \<and> campaign_schedules d r \<noteq> []
                        \<and> \<not> is_within_dayparting d r now
                    then r\<lparr>status := PAUSED, pause_reason := Some ''OUTSIDE_DAYPARTING_HOURS''\<rparr>
                    else r)"
    using task_rows_at(3) [OF pk row, of now] by (simp only:)
next
  assume "status c = COMPLETED"
  then show "status (fst (process_ad_spend c amt now d))
            = (if daily_spend c + amt > daily_budget c \<or> monthly_spend c + amt > monthly_budget c
               then PAUSED else COMPLETED)"
    by (simp add: process_ad_spend_obj)
next
  assume "status (fst (process_ad_spend c amt now d)) = COMPLETED"
  then show "status c = COMPLETED"
    by (simp add: process_ad_spend_obj split: if_splits)
next
  assume h: "pk_unique d \<and> get_campaign d i = Some r \<and> get_campaign (run_events evs d) i = Some r'
        \<and> status r' = COMPLETED"
  then obtain r2 where "get_campaign (run_events evs d) i = Some r2" "row_frame r r2"
    using run_events_step [of d i r evs] by blast
  then show "status r = COMPLETED" using h by (simp add: row_frame_def)
qed

text \<open>
  A Completed campaign goes unchanged through the budget sweep, the reactivation sweep
  and, on Monday at 14:00 within its schedule, the dayparting sweep; a spend of 10.00
  within its budgets leaves it Completed, also in a run with the two sweeps around it.
\<close>

theorem completed_status_frame_witness:
  "pk_unique (ex_db\<lparr>campaigns := [ex_campaign\<lparr>status := COMPLETED\<rparr>]\<rparr>)
   \<and> get_campaign (ex_db\<lparr>campaigns := [ex_campaign\<lparr>status := COMPLETED\<rparr>]\<rparr>) 1
       = Some (ex_campaign\<lparr>status := COMPLETED\<rparr>)
   \<and> status (ex_campaign\<lparr>status := COMPLETED\<rparr>) = COMPLETED
   \<and> get_campaign (pause_campaigns_exceeding_budget
         (ex_db\<lparr>campaigns := [ex_campaign\<lparr>status := COMPLETED\<rparr>]\<rparr>)) 1
       = Some (ex_campaign\<lparr>status := COMPLETED\<rparr>)
   \<and> get_campaign (reactivate_eligible_campaigns
         (ex_db\<lparr>campaigns := [ex_campaign\<lparr>status := COMPLETED\<rparr>]\<rparr>)) 1
       = Some (ex_campaign\<lparr>status := COMPLETED\<rparr>)
   \<and> get_campaign (enforce_dayparting (ex_now\<lparr>dt_hour := 14\<rparr>)
         (ex_db\<lparr>campaigns := [ex_campaign\<lparr>status := COMPLETED\<rparr>]\<rparr>)) 1
       = Some (ex_campaign\<lparr>status := COMPLETED\<rparr>)
   \<and> status (fst (process_ad_spend (ex_campaign\<lparr>status := COMPLETED\<rparr>) 10 ex_now
         (ex_db\<lparr>campaigns := [ex_campaign\<lparr>status := COMPLETED\<rparr>]\<rparr>))) = COMPLETED
   \<and> get_campaign (run_events [Sweep_budgets, Record_spend 1 10 ex_now, Sweep_reactivations]
         (ex_db\<lparr>campaigns := [ex_campaign\<lparr>status := COMPLETED\<rparr>]\<rparr>)) 1
       = Some (ex_campaign\<lparr>status := COMPLETED, daily_spend := 10, monthly_spend := 10\<rparr>)"
proof -
  let ?c = "ex_campaign\<lparr>status := COMPLETED\<rparr>"
  let ?d = "ex_db\<lparr>campaigns := [?c]\<rparr>"
  let ?now = "ex_now\<lparr>dt_hour := 14\<rparr>"
  have h: "pk_unique ?d \<and> get_campaign ?d 1 = Some ?c \<and> status ?c = COMPLETED"
    by (simp add: pk_unique_def get_campaign_def ex_defs)
  have w: "is_within_dayparting ?d ?c ?now"
    by (simp add: campaign_schedules_def is_within_dayparting_def weekday_def
        is_hour_in_range_def ex_defs)
  from completed_status_frame [where d = ?d and i = 1 and r = ?c and now = ?now and c = ?c,
      THEN conjunct1]
  have sweeps: "get_campaign (pause_campaigns_exceeding_budget ?d) 1 = Some ?c
      \<and> get_campaign (reactivate_eligible_campaigns ?d) 1 = Some ?c
      \<and> get_campaign (enforce_dayparting ?now ?d) 1 = Some ?c"
    using h w by simp
  have under: "\<not> (daily_spend ?c + 10 > daily_budget ?c \<or> monthly_spend ?c + 10 > monthly_budget ?c)"
    by (simp add: ex_defs)
  from completed_status_frame [where c = ?c and amt = 10 and now = ex_now and d = ?d,
      THEN conjunct2, THEN conjunct1]
  have rec: "status (fst (process_ad_spend ?c 10 ex_now ?d)) = COMPLETED"
    using h under by simp
  let ?evs = "[Sweep_budgets, Record_spend 1 10 ex_now, Sweep_reactivations]"
  let ?r' = "ex_campaign\<lparr>status := COMPLETED, daily_spend := 10, monthly_spend := 10\<rparr>"
  have run: "get_campaign (run_events ?evs ?d) 1 = Some ?r'"
    by (simp add: run_events_def pause_campaigns_exceeding_budget_def
        reactivate_eligible_campaigns_def process_ad_spend_def save_def get_campaign_def
        Let_def ex_defs)
  have st: "status ?r' = COMPLETED" by simp
  from completed_status_frame [where d = ?d and i = 1 and r = ?c and evs = ?evs and r' = ?r'
      and c = ?c, THEN conjunct2, THEN conjunct2, THEN conjunct2]
  have "status ?c = COMPLETED" using h run st by blast
  then show ?thesis using h sweeps rec run by blast
qed

text \<open>
  The claim as first stated, that no operation changes the status of a Completed
  campaign, fails: a spend of 60.00 against a daily budget of 50.00 pauses the Completed
  example campaign, and so does the dayparting sweep on Monday at 20:00, outside its 9 to
  17 schedule.
\<close>

theorem completed_counterexample:
  "status (ex_campaign\<lparr>status := COMPLETED\<rparr>) = COMPLETED
   \<and> process_ad_spend (ex_campaign\<lparr>status := COMPLETED\<rparr>) 60 ex_now
        (ex_db\<lparr>campaigns := [ex_campaign\<lparr>status := COMPLETED\<rparr>]\<rparr>)
     = (ex_campaign\<lparr>daily_spend := 60, monthly_spend := 60, status := PAUSED,
          pause_reason := Some ''DAILY_BUDGET_EXCEEDED'', is_active := False\<rparr>,
        ex_db\<lparr>campaigns := [ex_campaign\<lparr>daily_spend := 60, monthly_spend := 60,
            status := PAUSED, pause_reason := Some ''DAILY_BUDGET_EXCEEDED'',
            is_active := False\<rparr>],
          spends := [\<lparr>spend_campaign = 1, amount = 60, spend_date = 738900,
                      spend_hour = Some 20\<rparr>]\<rparr>)
   \<and> enforce_dayparting ex_now (ex_db\<lparr>campaigns := [ex_campaign\<lparr>status := COMPLETED\<rparr>]\<rparr>)
     = ex_db\<lparr>campaigns := [ex_campaign\<lparr>status := PAUSED,
          pause_reason := Some ''OUTSIDE_DAYPARTING_HOURS''\<rparr>]\<rparr>"
  by (simp add: process_ad_spend_def save_def Let_def enforce_dayparting_def
      enforce_dayparting_body_def campaign_schedules_def is_within_dayparting_def weekday_def
      is_hour_in_range_def ex_defs)

section \<open>What one run of the budget sweep does\<close>

text \<open>
  C6, as amended. One run of the budget sweep visits the campaigns whose \<open>is_active\<close>
  flag is true and whose status is Active, and only those: each is paused with
  \<open>DAILY_BUDGET_EXCEEDED\<close> if its daily spend is at or above its daily budget (checked
  first), else with \<open>MONTHLY_BUDGET_EXCEEDED\<close> if its monthly spend is at or above its
  monthly budget, else left as it is. The pause writes status and pause reason, not
  \<open>is_active\<close>. Every other campaign, every brand and the other tables are unchanged, so
  the sweep reactivates nothing. The three-way rule with reactivation is what
  \<open>check_budget_limits\<close> does to one object when called on it: a campaign under both
  budgets that is Paused, for whatever reason, becomes Active with its pause reason
  cleared, and a brand's \<open>is_active\<close> is cleared at or above a budget and set otherwise.
\<close>

theorem budget_sweep_rule:
  "(pk_unique d \<longrightarrow>
      pause_campaigns_exceeding_budget d =
        d\<lparr>campaigns := map (\<lambda>row.
            if is_active row \<and> status row = ACTIVE then
              (if daily_spend row \<ge> daily_budget row then
                 row\<lparr>status := PAUSED, pause_reason := Some ''DAILY_BUDGET_EXCEEDED''\<rparr>
               else if monthly_spend row \<ge> monthly_budget row then
                 row\<lparr>status := PAUSED, pause_reason := Some ''MONTHLY_BUDGET_EXCEEDED''\<rparr>
               else row)
            else row) (campaigns d)\<rparr>)
   \<and> fst (check_budget_limits c d) =
       (if daily_spend c \<ge> daily_budget c then
          c\<lparr>status := PAUSED, pause_reason := Some ''DAILY_BUDGET_EXCEEDED''\<rparr>
        else if monthly_spend c \<ge> monthly_budget c then
          c\<lparr>status := PAUSED, pause_reason := Some ''MONTHLY_BUDGET_EXCEEDED''\<rparr>
        else if status c = PAUSED then c\<lparr>status := ACTIVE, pause_reason := None\<rparr>
        else c)
   \<and> fst (brand_check_budget_limits b d) =
       (if brand_daily_spend b \<ge> brand_daily_budget b
           \<or> brand_monthly_spend b \<ge> brand_monthly_budget b then
          b\<lparr>brand_is_active := False\<rparr>
        else if \<not> brand_is_active b then b\<lparr>brand_is_active := True\<rparr>
        else b)"
proof (intro conjI impI)
  assume "pk_unique d"
  then have "distinct (map cid (campaigns d))" by (simp add: pk_unique_def)
  then show "pause_campaigns_exceeding_budget d =
        d\<lparr>campaigns := map (\<lambda>row.
            if is_active row \<and> status row = ACTIVE then
              (if daily_spend row \<ge> daily_budget row then
                 row\<lparr>status := PAUSED, pause_reason := Some ''DAILY_BUDGET_EXCEEDED''\<rparr>
               else if monthly_spend row \<ge> monthly_budget row then
                 row\<lparr>status := PAUSED, pause_reason := Some ''MONTHLY_BUDGET_EXCEEDED''\<rparr>
               else row)
            else row) (campaigns d)\<rparr>"
    by (simp only: pause_campaigns_exceeding_budget_rows budget_sweep_row_def [abs_def])
next
  show "fst (check_budget_limits c d) =
       (if daily_spend c \<ge> daily_budget c then
          c\<lparr>status := PAUSED, pause_reason := Some ''DAILY_BUDGET_EXCEEDED''\<rparr>
        else if monthly_spend c \<ge> monthly_budget c then
          c\<lparr>status := PAUSED, pause_reason := Some ''MONTHLY_BUDGET_EXCEEDED''\<rparr>
        else if status c = PAUSED then c\<lparr>status := ACTIVE, pause_reason := None\<rparr>
        else c)"
    by (simp add: check_budget_limits_def can_resume_def Let_def)
next
  show "fst (brand_check_budget_limits b d) =
       (if brand_daily_spend b \<ge> brand_daily_budget b
           \<or> brand_monthly_spend b \<ge> brand_monthly_budget b then
          b\<lparr>brand_is_active := False\<rparr>
        else if \<not> brand_is_active b then b\<lparr>brand_is_active := True\<rparr>
        else b)"
    by (simp add: brand_check_budget_limits_def Let_def)
qed

text \<open>A campaign with its monthly spend on its monthly budget is paused for that reason.\<close>

theorem budget_sweep_rule_witness:
  "pk_unique (ex_db\<lparr>campaigns := [ex_campaign\<lparr>monthly_spend := 500\<rparr>]\<rparr>)
   \<and> pause_campaigns_exceeding_budget (ex_db\<lparr>campaigns := [ex_campaign\<lparr>monthly_spend := 500\<rparr>]\<rparr>)
     = ex_db\<lparr>campaigns := [ex_campaign\<lparr>monthly_spend := 500, status := PAUSED,
         pause_reason := Some ''MONTHLY_BUDGET_EXCEEDED''\<rparr>]\<rparr>"
proof -
  let ?d = "ex_db\<lparr>campaigns := [ex_campaign\<lparr>monthly_spend := 500\<rparr>]\<rparr>"
  have pk: "pk_unique ?d" by (simp add: pk_unique_def ex_defs)
  show ?thesis
    using pk budget_sweep_rule [where d = ?d and c = ex_campaign and b = ex_brand, THEN conjunct1]
    by (simp add: ex_defs)
qed

text \<open>
  The claim as first stated, that the sweep treats every brand and every campaign, fails:
  a brand with its daily spend on its daily budget stays active, and a campaign paused
  for its daily budget whose accumulators are back under budget stays paused; the sweep
  returns this database unchanged.
\<close>

theorem budget_sweep_skips_brands_and_paused:
  "brand_daily_spend (ex_brand\<lparr>brand_daily_spend := 100\<rparr>)
     \<ge> brand_daily_budget (ex_brand\<lparr>brand_daily_spend := 100\<rparr>)
   \<and> brand_is_active (ex_brand\<lparr>brand_daily_spend := 100\<rparr>)
   \<and> can_resume (ex_campaign\<lparr>status := PAUSED, pause_reason := Some ''DAILY_BUDGET_EXCEEDED''\<rparr>)
   \<and> pause_campaigns_exceeding_budget
        (ex_db\<lparr>brands := [ex_brand\<lparr>brand_daily_spend := 100\<rparr>],
          campaigns := [ex_campaign\<lparr>status := PAUSED,
            pause_reason := Some ''DAILY_BUDGET_EXCEEDED''\<rparr>]\<rparr>)
     = ex_db\<lparr>brands := [ex_brand\<lparr>brand_daily_spend := 100\<rparr>],
          campaigns := [ex_campaign\<lparr>status := PAUSED,
            pause_reason := Some ''DAILY_BUDGET_EXCEEDED''\<rparr>]\<rparr>"
  by (simp add: pause_campaigns_exceeding_budget_def can_resume_def ex_defs)

section \<open>Negative amounts\<close>




section \<open>The budget sweep is idempotent\<close>

text \<open>
  C8. Running the budget sweep twice in a row, with nothing recorded in between, leaves
  the database exactly as the first run left it. The starting state is any database
  whose campaign table has unique primary keys.
\<close>

theorem budget_sweep_idempotent:
  assumes "pk_unique d"
  shows "pause_campaigns_exceeding_budget (pause_campaigns_exceeding_budget d)
       = pause_campaigns_exceeding_budget d"
proof -
  have dist: "distinct (map cid (campaigns d))"
    using assms by (simp add: pk_unique_def)
  let ?d1 = "d\<lparr>campaigns := map budget_sweep_row (campaigns d)\<rparr>"
  have eq1: "pause_campaigns_exceeding_budget d = ?d1"
    using dist by (rule pause_campaigns_exceeding_budget_rows)
  have dist1: "distinct (map cid (campaigns ?d1))"
    using dist by (simp add: comp_def)
  have "pause_campaigns_exceeding_budget ?d1
      = ?d1\<lparr>campaigns := map budget_sweep_row (campaigns ?d1)\<rparr>"
    using dist1 by (rule pause_campaigns_exceeding_budget_rows)
  also have "\<dots> = ?d1"
    by (simp add: comp_def budget_sweep_row_idem)
  finally show ?thesis by (simp only: eq1)
qed

text \<open>
  A table of two campaigns, the first with its daily spend on the daily budget: the
  first run pauses it, the second changes nothing.
\<close>

theorem budget_sweep_idempotent_witness:
  "pk_unique (ex_db\<lparr>campaigns := [ex_campaign\<lparr>daily_spend := 50\<rparr>, ex_campaign\<lparr>cid := 2\<rparr>]\<rparr>)
   \<and> pause_campaigns_exceeding_budget (pause_campaigns_exceeding_budget
        (ex_db\<lparr>campaigns := [ex_campaign\<lparr>daily_spend := 50\<rparr>, ex_campaign\<lparr>cid := 2\<rparr>]\<rparr>))
     = pause_campaigns_exceeding_budget
        (ex_db\<lparr>campaigns := [ex_campaign\<lparr>daily_spend := 50\<rparr>, ex_campaign\<lparr>cid := 2\<rparr>]\<rparr>)
   \<and> map status (campaigns (pause_campaigns_exceeding_budget
        (ex_db\<lparr>campaigns := [ex_campaign\<lparr>daily_spend := 50\<rparr>, ex_campaign\<lparr>cid := 2\<rparr>]\<rparr>)))
     = [PAUSED, ACTIVE]"
proof -
  let ?d = "ex_db\<lparr>campaigns := [ex_campaign\<lparr>daily_spend := 50\<rparr>, ex_campaign\<lparr>cid := 2\<rparr>]\<rparr>"
  have pk: "pk_unique ?d" by (simp add: pk_unique_def ex_defs)
  have run: "map status (campaigns (pause_campaigns_exceeding_budget ?d)) = [PAUSED, ACTIVE]"
    by (simp add: pause_campaigns_exceeding_budget_def check_budget_limits_def save_def
        can_resume_def Let_def ex_defs)
  show ?thesis using pk budget_sweep_idempotent [OF pk] run by (simp only: simp_thms)
qed

section \<open>Campaigns without schedules are outside dayparting\<close>

text \<open>
  C9. A campaign that has no \<open>DaypartingSchedule\<close> row is left as it is by the dayparting
  sweep, whatever the day and hour: its status, its pause reason and every other field of
  its row are unchanged.
\<close>

theorem no_schedule_untouched:
  assumes "pk_unique d" and "get_campaign d i = Some r" and "campaign_schedules d r = []"
  shows "get_campaign (enforce_dayparting now d) i = Some r"
proof -
  have "dayparting_row d now r = r"
    using assms(3) by (simp add: dayparting_row_def)
  then show ?thesis
    using task_rows_at(3) [OF assms(1,2), of now] by (simp only:)
qed

theorem no_schedule_untouched_witness:
  "pk_unique (ex_db\<lparr>dayparting_schedules := []\<rparr>)
   \<and> get_campaign (ex_db\<lparr>dayparting_schedules := []\<rparr>) 1 = Some ex_campaign
   \<and> campaign_schedules (ex_db\<lparr>dayparting_schedules := []\<rparr>) ex_campaign = []
   \<and> get_campaign (enforce_dayparting ex_now (ex_db\<lparr>dayparting_schedules := []\<rparr>)) 1
       = Some ex_campaign"
proof -
  let ?d = "ex_db\<lparr>dayparting_schedules := []\<rparr>"
  have h: "pk_unique ?d" "get_campaign ?d 1 = Some ex_campaign" "campaign_schedules ?d ex_campaign = []"
    by (simp_all add: pk_unique_def get_campaign_def campaign_schedules_def ex_defs)
  show ?thesis using h no_schedule_untouched [OF h, of ex_now] by (simp only: simp_thms)
qed

section \<open>The reactivation sweep leaves the is_active flag alone\<close>

text \<open>
  C10. The reactivation sweep never writes \<open>is_active\<close>. A campaign paused through
  \<open>process_ad_spend\<close> has the flag false; a later reactivation sweep, when \<open>can_resume\<close>
  holds, sets its status to Active and clears its pause reason, and the flag stays false.
  With the flag false, the dayparting sweep and the simulation driver leave the campaign's
  row as it is and the driver records no spend for it; and since no operation sets the
  flag, it is still false after any run of operations.
\<close>

theorem inline_pause_keeps_campaign_inactive:
  "map is_active (campaigns (reactivate_eligible_campaigns d)) = map is_active (campaigns d)
   \<and> (get_campaign d (cid c) = Some c
        \<and> (daily_spend c + amt > daily_budget c \<or> monthly_spend c + amt > monthly_budget c)
      \<longrightarrow> (\<exists>r1. get_campaign (snd (process_ad_spend c amt now d)) (cid c) = Some r1
             \<and> status r1 = PAUSED \<and> \<not> is_active r1))
   \<and> (pk_unique d \<and> get_campaign d i = Some r \<and> \<not> is_active r
      \<longrightarrow> get_campaign (reactivate_eligible_campaigns d) i
            = Some (if status r = PAUSED \<and> can_resume r
                    then r\<lparr>status := ACTIVE, pause_reason := None\<rparr> else r)
          \<and> get_campaign (enforce_dayparting now d) i = Some r
          \<and> get_campaign (simulate_ad_spend draws now d) i = Some r
          \<and> filter (\<lambda>s. spend_campaign s = i) (spends (simulate_ad_spend draws now d))
              = filter (\<lambda>s. spend_campaign s = i) (spends d)
          \<and> (\<exists>r'. get_campaign (run_events evs d) i = Some r' \<and> \<not> is_active r'))"
proof (intro conjI impI)
  show "map is_active (campaigns (reactivate_eligible_campaigns d)) = map is_active (campaigns d)"
    by (rule reactivation_keeps_is_active)
next
  assume h: "get_campaign d (cid c) = Some c
        \<and> (daily_spend c + amt > daily_budget c \<or> monthly_spend c + amt > monthly_budget c)"
  then have "get_campaign (snd (process_ad_spend c amt now d)) (cid c)
      = Some (fst (process_ad_spend c amt now d))"
    by (simp add: process_ad_spend_row)
  moreover have "status (fst (process_ad_spend c amt now d)) = PAUSED"
    "\<not> is_active (fst (process_ad_spend c amt now d))"
    using h by (auto simp add: process_ad_spend_obj)
  ultimately show "\<exists>r1. get_campaign (snd (process_ad_spend c amt now d)) (cid c) = Some r1
             \<and> status r1 = PAUSED \<and> \<not> is_active r1" by blast
next
  assume h: "pk_unique d \<and> get_campaign d i = Some r \<and> \<not> is_active r"
  then have pk: "pk_unique d" and row: "get_campaign d i = Some r" and off: "\<not> is_active r"
    by simp_all
  have "reactivation_row r
      = (if status r = PAUSED \<and> can_resume r
         then r\<lparr>status := ACTIVE, pause_reason := None\<rparr> else r)"
    by (simp add: reactivation_row_def)
  then show "get_campaign (reactivate_eligible_campaigns d) i
            = Some (if status r = PAUSED \<and> can_resume r
                    then r\<lparr>status := ACTIVE, pause_reason := None\<rparr> else r)"
    using task_rows_at(2) [OF pk row] by (simp only:)
  have "dayparting_row d now r = r" using off by (simp add: dayparting_row_def)
  then show "get_campaign (enforce_dayparting now d) i = Some r"
    using task_rows_at(3) [OF pk row, of now] by (simp only:)
  show "get_campaign (simulate_ad_spend draws now d) i = Some r"
    using pk row off by (rule simulate_skips_inactive(1))
  show "filter (\<lambda>s. spend_campaign s = i) (spends (simulate_ad_spend draws now d))
              = filter (\<lambda>s. spend_campaign s = i) (spends d)"
    using pk row off by (rule simulate_skips_inactive(2))
  obtain r' where "get_campaign (run_events evs d) i = Some r'" "row_frame r r'"
    using run_events_step [OF pk row, of evs] by blast
  then show "\<exists>r'. get_campaign (run_events evs d) i = Some r' \<and> \<not> is_active r'"
    using off by (auto simp add: row_frame_def)
qed

text \<open>
  A spend of 10.00 at 45.00 of 50.00 pauses the example campaign inline. After the daily
  reset the reactivation sweep makes it Active with the flag still false, and the flag is
  false after a further reactivation sweep, dayparting sweep and simulation run.
\<close>

theorem inline_pause_keeps_campaign_inactive_witness:
  "get_campaign (ex_db\<lparr>campaigns := [ex_campaign\<lparr>daily_spend := 45\<rparr>]\<rparr>) 1
       = Some (ex_campaign\<lparr>daily_spend := 45\<rparr>)
   \<and> daily_budget (ex_campaign\<lparr>daily_spend := 45\<rparr>)
       < daily_spend (ex_campaign\<lparr>daily_spend := 45\<rparr>) + 10
   \<and> (\<exists>r1. get_campaign (snd (process_ad_spend (ex_campaign\<lparr>daily_spend := 45\<rparr>) 10 ex_now
           (ex_db\<lparr>campaigns := [ex_campaign\<lparr>daily_spend := 45\<rparr>]\<rparr>))) 1 = Some r1
         \<and> status r1 = PAUSED \<and> \<not> is_active r1)
   \<and> run_events [Record_spend 1 10 ex_now, Reset_daily]
        (ex_db\<lparr>campaigns := [ex_campaign\<lparr>daily_spend := 45\<rparr>]\<rparr>)
     = ex_db\<lparr>campaigns := [ex_campaign\<lparr>monthly_spend := 10, status := PAUSED,
            pause_reason := Some ''DAILY_BUDGET_EXCEEDED'', is_active := False\<rparr>],
          spends := [\<lparr>spend_campaign = 1, amount = 10, spend_date = 738900,
                      spend_hour = Some 20\<rparr>]\<rparr>
   \<and> pk_unique (ex_db\<lparr>campaigns := [ex_campaign\<lparr>monthly_spend := 10, status := PAUSED,
            pause_reason := Some ''DAILY_BUDGET_EXCEEDED'', is_active := False\<rparr>],
          spends := [\<lparr>spend_campaign = 1, amount = 10, spend_date = 738900,
                      spend_hour = Some 20\<rparr>]\<rparr>)
   \<and> get_campaign (reactivate_eligible_campaigns
         (ex_db\<lparr>campaigns := [ex_campaign\<lparr>monthly_spend := 10, status := PAUSED,
            pause_reason := Some ''DAILY_BUDGET_EXCEEDED'', is_active := False\<rparr>],
          spends := [\<lparr>spend_campaign = 1, amount = 10, spend_date = 738900,
                      spend_hour = Some 20\<rparr>]\<rparr>)) 1
       = Some (ex_campaign\<lparr>monthly_spend := 10, is_active := False\<rparr>)
   \<and> (\<exists>r'. get_campaign (run_events
           [Sweep_reactivations, Sweep_dayparting (ex_now\<lparr>dt_hour := 14\<rparr>),
            Simulate (\<lambda>k. 3) (ex_now\<lparr>dt_hour := 14\<rparr>)]
           (ex_db\<lparr>campaigns := [ex_campaign\<lparr>monthly_spend := 10, status := PAUSED,
              pause_reason := Some ''DAILY_BUDGET_EXCEEDED'', is_active := False\<rparr>],
            spends := [\<lparr>spend_campaign = 1, amount = 10, spend_date = 738900,
                        spend_hour = Some 20\<rparr>]\<rparr>)) 1 = Some r'
         \<and> \<not> is_active r')"
proof -
  let ?c = "ex_campaign\<lparr>daily_spend := 45\<rparr>"
  let ?d = "ex_db\<lparr>campaigns := [?c]\<rparr>"
  let ?r = "ex_campaign\<lparr>monthly_spend := 10, status := PAUSED,
            pause_reason := Some ''DAILY_BUDGET_EXCEEDED'', is_active := False\<rparr>"
  let ?d1 = "ex_db\<lparr>campaigns := [?r],
          spends := [\<lparr>spend_campaign = 1, amount = 10, spend_date = 738900,
                      spend_hour = Some 20\<rparr>]\<rparr>"
  let ?evs = "[Sweep_reactivations, Sweep_dayparting (ex_now\<lparr>dt_hour := 14\<rparr>),
            Simulate (\<lambda>k. 3) (ex_now\<lparr>dt_hour := 14\<rparr>)]"
  have a: "get_campaign ?d 1 = Some ?c" "daily_budget ?c < daily_spend ?c + 10"
    by (simp_all add: get_campaign_def ex_defs)
  have c1: "cid ?c = 1" by (simp add: ex_defs)
  from inline_pause_keeps_campaign_inactive
    [where d = ?d and c = ?c and amt = 10 and now = ex_now, THEN conjunct2, THEN conjunct1]
  have inl: "\<exists>r1. get_campaign (snd (process_ad_spend ?c 10 ex_now ?d)) 1 = Some r1
         \<and> status r1 = PAUSED \<and> \<not> is_active r1"
    using a unfolding c1 by blast
  have run: "run_events [Record_spend 1 10 ex_now, Reset_daily] ?d = ?d1"
    by (simp add: run_events_def reset_daily_budgets_def brand_reset_daily_spend_def
        brand_save_def reset_daily_spend_def process_ad_spend_def save_def get_campaign_def
        Let_def ex_defs)
  have h: "pk_unique ?d1 \<and> get_campaign ?d1 1 = Some ?r \<and> \<not> is_active ?r"
    by (simp add: pk_unique_def get_campaign_def ex_defs)
  have cr: "status ?r = PAUSED \<and> can_resume ?r"
    by (simp add: can_resume_def ex_defs)
  have upd: "?r\<lparr>status := ACTIVE, pause_reason := None\<rparr>
      = ex_campaign\<lparr>monthly_spend := 10, is_active := False\<rparr>"
    by (simp add: ex_defs)
  note inst = inline_pause_keeps_campaign_inactive
    [where d = ?d1 and i = 1 and r = ?r and evs = ?evs, THEN conjunct2, THEN conjunct2]
  have "get_campaign (reactivate_eligible_campaigns ?d1) 1
      = Some (ex_campaign\<lparr>monthly_spend := 10, is_active := False\<rparr>)"
    using inst h cr upd by simp
  moreover have "\<exists>r'. get_campaign (run_events ?evs ?d1) 1 = Some r' \<and> \<not> is_active r'"
    using inst h by blast
  ultimately show ?thesis using a inl run h by blast
qed

end
